theory Spec2Isabelle
  imports Complex_Main
begin

section \<open>The look-ahead tree of the star planner\<close>

text \<open>
  A shallow embedding of \<^verbatim>\<open>local_planner/src/nodes/star_planner.cpp\<close>. The member
  function \<^verbatim>\<open>StarPlanner::buildLookAheadTree\<close> is translated statement by statement:
  the object is a record that is passed in and returned, each loop is a recursive
  function, and the functions of \<^verbatim>\<open>planner_functions.h\<close> and \<^verbatim>\<open>common.h\<close>
  that the planner only calls are fields of a record of collaborators.

  Numbers. Lengths, angles and coordinates are real numbers. The rounding of the 32-bit
  arithmetic is modelled where the source compares a computed distance with the
  literal \<^verbatim>\<open>0.2f\<close> (lines 96 and 97): there every operation rounds its exact result
  to the nearest number of the binary32 format. Elsewhere the arithmetic is exact. Costs
  can be \<^verbatim>\<open>HUGE_VAL\<close>, so a cost is a real number or one of the special values of IEEE
  arithmetic. Indices into the tree are natural numbers: the source keeps them in
  \<^verbatim>\<open>int\<close> and \<^verbatim>\<open>size_t\<close> variables that never hold a negative value.
\<close>

subsection \<open>Scalars and vectors\<close>

datatype cfloat = Fin real | PInf | NInf | NaN

fun fneg :: "cfloat \<Rightarrow> cfloat" where
  "fneg (Fin a) = Fin (- a)"
| "fneg PInf = NInf"
| "fneg NInf = PInf"
| "fneg NaN = NaN"

fun fadd :: "cfloat \<Rightarrow> cfloat \<Rightarrow> cfloat" where
  "fadd (Fin a) (Fin b) = Fin (a + b)"
| "fadd NaN _ = NaN"
| "fadd _ NaN = NaN"
| "fadd PInf NInf = NaN"
| "fadd NInf PInf = NaN"
| "fadd PInf _ = PInf"
| "fadd _ PInf = PInf"
| "fadd NInf _ = NInf"
| "fadd _ NInf = NInf"

definition fsub :: "cfloat \<Rightarrow> cfloat \<Rightarrow> cfloat" where
  "fsub a b = fadd a (fneg b)"

text \<open>The comparison \<^verbatim>\<open><\<close> of the source: false as soon as one side is NaN.\<close>

fun fless :: "cfloat \<Rightarrow> cfloat \<Rightarrow> bool" where
  "fless (Fin a) (Fin b) = (a < b)"
| "fless (Fin _) PInf = True"
| "fless NInf (Fin _) = True"
| "fless NInf PInf = True"
| "fless _ _ = False"

definition HUGE_VAL :: cfloat where
  "HUGE_VAL = PInf"

type_synonym Vector3f = "real \<times> real \<times> real"

fun vadd :: "Vector3f \<Rightarrow> Vector3f \<Rightarrow> Vector3f" where
  "vadd (a1, a2, a3) (b1, b2, b3) = (a1 + b1, a2 + b2, a3 + b3)"

fun vsub :: "Vector3f \<Rightarrow> Vector3f \<Rightarrow> Vector3f" where
  "vsub (a1, a2, a3) (b1, b2, b3) = (a1 - b1, a2 - b2, a3 - b3)"

fun vnorm :: "Vector3f \<Rightarrow> real" where
  "vnorm (a1, a2, a3) = sqrt (a1 * a1 + a2 * a2 + a3 * a3)"

fun vx :: "Vector3f \<Rightarrow> real" where
  "vx (a1, a2, a3) = a1"

fun vy :: "Vector3f \<Rightarrow> real" where
  "vy (a1, a2, a3) = a2"

text \<open>
  Single precision. A number of the binary32 format is an integer multiple of
  \<open>2 powi (e - 23)\<close>, where \<open>2 powi e\<close> is the power of two at or below its absolute
  value and \<open>e\<close> is at least \<open>- 126\<close> (below \<open>2 powi (- 126)\<close> the spacing stays
  \<open>2 powi (- 149)\<close>). \<open>fl32 x\<close> is the multiple nearest to \<open>x\<close>, the even one of two
  that are equally near: the result of an operation of IEEE arithmetic whose exact
  result is \<open>x\<close>, in the default rounding mode. The format ends at
  \<open>2 powi 128\<close>; the model has no upper end, and an operation that overflows in the
  source has a large finite result here.
\<close>

definition round_even :: "real \<Rightarrow> int" where
  "round_even q =
     (if q - of_int \<lfloor>q\<rfloor> < 1 / 2 then \<lfloor>q\<rfloor>
      else if 1 / 2 < q - of_int \<lfloor>q\<rfloor> then \<lfloor>q\<rfloor> + 1
      else if even \<lfloor>q\<rfloor> then \<lfloor>q\<rfloor> else \<lfloor>q\<rfloor> + 1)"

definition fl32 :: "real \<Rightarrow> real" where
  "fl32 x =
     (if x = 0 then 0
      else of_int (round_even (x / 2 powi (max \<lfloor>log 2 \<bar>x\<bar>\<rfloor> (- 126) - 23)))
             * 2 powi (max \<lfloor>log 2 \<bar>x\<bar>\<rfloor> (- 126) - 23))"

text \<open>
  The difference of two \<^verbatim>\<open>Eigen::Vector3f\<close> and \<^verbatim>\<open>norm()\<close> in single precision:
  the square root of the sum of the squares, summed from the first coordinate on, every
  operation rounded.
\<close>

fun vsub32 :: "Vector3f \<Rightarrow> Vector3f \<Rightarrow> Vector3f" where
  "vsub32 (a1, a2, a3) (b1, b2, b3) = (fl32 (a1 - b1), fl32 (a2 - b2), fl32 (a3 - b3))"

fun norm32 :: "Vector3f \<Rightarrow> real" where
  "norm32 (a1, a2, a3) =
     fl32 (sqrt (fl32 (fl32 (fl32 (a1 * a1) + fl32 (a2 * a2)) + fl32 (a3 * a3))))"

text \<open>\<^verbatim>\<open>std::round\<close> rounds halfway cases away from zero.\<close>

definition cround :: "real \<Rightarrow> real" where
  "cround a = (if 0 \<le> a then of_int \<lfloor>a + 1 / 2\<rfloor> else of_int \<lceil>a - 1 / 2\<rceil>)"

text \<open>\<^verbatim>\<open>atan2(y, x)\<close> of the C library, on real numbers.\<close>

definition atan2 :: "real \<Rightarrow> real \<Rightarrow> real" where
  "atan2 b a =
     (if 0 < a then arctan (b / a)
      else if a < 0 \<and> 0 \<le> b then arctan (b / a) + pi
      else if a < 0 then arctan (b / a) - pi
      else if 0 < b then pi / 2
      else if b < 0 then - (pi / 2)
      else 0)"

subsection \<open>Tree nodes\<close>

text \<open>
  The class \<^verbatim>\<open>TreeNode\<close> is declared in \<^verbatim>\<open>local_planner/tree_node.h\<close>; the planner
  reads and writes the members below. Names. The data members of the source end in an
  underscore, which a name of the logic cannot: member \<^verbatim>\<open>x_\<close> of \<^verbatim>\<open>TreeNode\<close> is
  the field \<open>tn_x\<close>, member \<^verbatim>\<open>x_\<close> of \<^verbatim>\<open>StarPlanner\<close> is the field \<open>sp_x\<close>.
\<close>

record TreeNode =
  tn_position :: Vector3f
  tn_velocity :: Vector3f
  tn_total_cost :: cfloat
  tn_heuristic :: cfloat
  tn_last_e :: real
  tn_last_z :: real
  tn_origin :: nat
  tn_depth :: int
  tn_yaw :: real
  tn_closed :: bool

text \<open>
  Modelled from the spec: the constructor \<^verbatim>\<open>TreeNode(from, d, pos, vel)\<close>, the accessors
  and \<^verbatim>\<open>setCosts\<close> are defined in \<^verbatim>\<open>tree_node.cpp\<close>, which is not part of the source
  at hand. By the spec a node records the index of the node it was expanded from, its
  depth, its position and its velocity, and is open until the planner closes it; costs
  and angles are zero until the planner assigns them.
\<close>

definition mkTreeNode :: "nat \<Rightarrow> int \<Rightarrow> Vector3f \<Rightarrow> Vector3f \<Rightarrow> TreeNode" where
  "mkTreeNode from d pos vel =
     \<lparr>tn_position = pos, tn_velocity = vel, tn_total_cost = Fin 0, tn_heuristic = Fin 0,
      tn_last_e = 0, tn_last_z = 0, tn_origin = from, tn_depth = d, tn_yaw = 0, tn_closed = False\<rparr>"

definition getPosition :: "TreeNode \<Rightarrow> Vector3f" where
  "getPosition nd = tn_position nd"

definition getVelocity :: "TreeNode \<Rightarrow> Vector3f" where
  "getVelocity nd = tn_velocity nd"

definition setCosts :: "cfloat \<Rightarrow> cfloat \<Rightarrow> TreeNode \<Rightarrow> TreeNode" where
  "setCosts h c nd = nd\<lparr>tn_heuristic := h, tn_total_cost := c\<rparr>"

subsection \<open>Collaborators\<close>

text \<open>
  \<^verbatim>\<open>PolarPoint\<close> is declared in \<^verbatim>\<open>avoidance/common.h\<close>: an elevation, an azimuth and
  a range.
\<close>

record PolarPoint =
  pp_e :: real
  pp_z :: real
  pp_r :: real

text \<open>
  The functions the planner calls and does not define. The types of the point cloud,
  the histogram, the cost matrix, the cost parameters and a candidate direction are
  parameters. A function that fills an output argument in the source returns that
  value here.
\<close>

record ('cloud, 'hist, 'cm, 'cp, 'cand) collaborators =
  ALPHA_RES :: int
  cartesianToPolarHistogram :: "Vector3f \<Rightarrow> Vector3f \<Rightarrow> PolarPoint"
  generateNewHistogram :: "'cloud \<Rightarrow> Vector3f \<Rightarrow> 'hist"
  getCostMatrix :: "'hist \<Rightarrow> Vector3f \<Rightarrow> Vector3f \<Rightarrow> Vector3f \<Rightarrow> 'cp \<Rightarrow> real \<Rightarrow> 'cm"
  getBestCandidatesFromCostMatrix :: "'cm \<Rightarrow> int \<Rightarrow> 'cand list"
  toPolar :: "'cand \<Rightarrow> real \<Rightarrow> PolarPoint"
  polarHistogramToCartesian :: "PolarPoint \<Rightarrow> Vector3f \<Rightarrow> Vector3f"
  polarToHistogramIndex :: "PolarPoint \<Rightarrow> int \<Rightarrow> int \<times> int"
  get_dist :: "'hist \<Rightarrow> int \<Rightarrow> int \<Rightarrow> real"
  costFunction ::
    "PolarPoint \<Rightarrow> real \<Rightarrow> Vector3f \<Rightarrow> Vector3f \<Rightarrow> Vector3f \<Rightarrow> 'cp \<Rightarrow> cfloat"
  wrapAngleToPlusMinus180 :: "real \<Rightarrow> real"

subsection \<open>The planner\<close>

record ('cloud, 'cp) StarPlanner =
  sp_children_per_node :: int
  sp_n_expanded_nodes :: int
  sp_tree_node_distance :: real
  sp_max_path_length :: real
  sp_smoothing_margin_degrees :: real
  sp_cost_params :: 'cp
  sp_projected_last_wp :: Vector3f
  sp_position :: Vector3f
  sp_velocity :: Vector3f
  sp_curr_yaw_histogram_frame_deg :: real
  sp_goal :: Vector3f
  sp_cloud :: 'cloud
  sp_tree :: "TreeNode list"
  sp_closed_set :: "nat list"
  sp_path_node_positions :: "Vector3f list"
  sp_path_node_origins :: "nat list"
  sp_tree_age :: int

definition setParams :: "'cp \<Rightarrow> ('cloud, 'cp) StarPlanner \<Rightarrow> ('cloud, 'cp) StarPlanner" where
  "setParams cost_params sp = sp\<lparr>sp_cost_params := cost_params\<rparr>"

definition setLastDirection ::
  "Vector3f \<Rightarrow> ('cloud, 'cp) StarPlanner \<Rightarrow> ('cloud, 'cp) StarPlanner" where
  "setLastDirection projected_last_wp sp = sp\<lparr>sp_projected_last_wp := projected_last_wp\<rparr>"

definition setPose ::
  "('cloud, 'hist, 'cm, 'cp, 'cand) collaborators \<Rightarrow> Vector3f \<Rightarrow> Vector3f \<Rightarrow> real \<Rightarrow>
   ('cloud, 'cp) StarPlanner \<Rightarrow> ('cloud, 'cp) StarPlanner" where
  "setPose E pos vel curr_yaw_fcu_frame_deg sp =
     sp\<lparr>sp_position := pos, sp_velocity := vel,
        sp_curr_yaw_histogram_frame_deg :=
          wrapAngleToPlusMinus180 E (- curr_yaw_fcu_frame_deg + 90)\<rparr>"

definition setGoal :: "Vector3f \<Rightarrow> ('cloud, 'cp) StarPlanner \<Rightarrow> ('cloud, 'cp) StarPlanner" where
  "setGoal goal sp = sp\<lparr>sp_goal := goal, sp_tree_age := 1000\<rparr>"

definition setPointcloud ::
  "'cloud \<Rightarrow> ('cloud, 'cp) StarPlanner \<Rightarrow> ('cloud, 'cp) StarPlanner" where
  "setPointcloud cloud sp = sp\<lparr>sp_cloud := cloud\<rparr>"

definition treeHeuristicFunction :: "('cloud, 'cp) StarPlanner \<Rightarrow> nat \<Rightarrow> cfloat" where
  "treeHeuristicFunction sp node_number =
     Fin (vnorm (vsub (sp_goal sp) (getPosition (sp_tree sp ! node_number))))"

text \<open>
  Lines 95 to 101: the scan for a node closer than \<^verbatim>\<open>0.2f\<close> to the new location. It
  counts one such node and leaves the loop. The distance is a \<^verbatim>\<open>float\<close> computed in
  single precision, and the literal \<^verbatim>\<open>0.2f\<close> is the number of the binary32 format
  nearest to \<open>2 / 10\<close>.
\<close>

fun close_nodes :: "TreeNode list \<Rightarrow> Vector3f \<Rightarrow> nat" where
  "close_nodes [] node_location = 0"
| "close_nodes (nd # nds) node_location =
     (if norm32 (vsub32 (getPosition nd) node_location) < fl32 (2 / 10) then 1
      else close_nodes nds node_location)"

text \<open>
  Lines 104 to 118: the push of an accepted candidate. The node is appended and then
  written through \<^verbatim>\<open>tree_.back()\<close>, one member after the other; \<open>k\<close> is the index
  \<^verbatim>\<open>tree_.size() - 1\<close> of the new node.
\<close>

definition push_node ::
  "('cloud, 'hist, 'cm, 'cp, 'cand) collaborators \<Rightarrow> ('cloud, 'cp) StarPlanner \<Rightarrow> 'hist \<Rightarrow>
   nat \<Rightarrow> int \<Rightarrow> Vector3f \<Rightarrow> PolarPoint \<Rightarrow> Vector3f \<Rightarrow> Vector3f \<Rightarrow>
   ('cloud, 'cp) StarPlanner" where
  "push_node E sp histogram origin depth origin_position candidate_polar node_location
     node_velocity =
     (let sp1 = sp\<lparr>sp_tree := sp_tree sp @ [mkTreeNode origin depth node_location node_velocity]\<rparr>;
          k = length (sp_tree sp1) - 1;
          sp2 = sp1\<lparr>sp_tree := (sp_tree sp1)[k := (sp_tree sp1 ! k)\<lparr>tn_last_e := pp_e candidate_polar\<rparr>]\<rparr>;
          sp3 = sp2\<lparr>sp_tree := (sp_tree sp2)[k := (sp_tree sp2 ! k)\<lparr>tn_last_z := pp_z candidate_polar\<rparr>]\<rparr>;
          h = treeHeuristicFunction sp3 k;
          idx_ppol = polarToHistogramIndex E candidate_polar (ALPHA_RES E);
          obstacle_distance = get_dist E histogram (fst idx_ppol) (snd idx_ppol);
          c = costFunction E candidate_polar obstacle_distance (sp_goal sp3) node_location
                node_velocity (sp_cost_params sp3);
          sp4 = sp3\<lparr>sp_tree := (sp_tree sp3)[k := (sp_tree sp3 ! k)\<lparr>tn_heuristic := h\<rparr>]\<rparr>;
          sp5 = sp4\<lparr>sp_tree := (sp_tree sp4)[k := (sp_tree sp4 ! k)
                  \<lparr>tn_total_cost :=
                     fadd (fadd (fsub (tn_total_cost (sp_tree sp4 ! origin))
                                   (tn_heuristic (sp_tree sp4 ! origin))) c) h\<rparr>]\<rparr>;
          diff = vsub node_location origin_position;
          yaw_radians = atan2 (vy diff) (vx diff)
      in sp5\<lparr>sp_tree := (sp_tree sp5)[k := (sp_tree sp5 ! k)
               \<lparr>tn_yaw := cround (- yaw_radians * 180 / pi) + 90\<rparr>]\<rparr>)"

text \<open>Lines 87 to 120: the loop over the candidates, with its counter \<^verbatim>\<open>children\<close>.\<close>

fun insert_nodes ::
  "('cloud, 'hist, 'cm, 'cp, 'cand) collaborators \<Rightarrow> 'hist \<Rightarrow> nat \<Rightarrow> int \<Rightarrow> Vector3f \<Rightarrow>
   'cand list \<Rightarrow> int \<Rightarrow> ('cloud, 'cp) StarPlanner \<Rightarrow> ('cloud, 'cp) StarPlanner" where
  "insert_nodes E histogram origin depth origin_position [] children sp = sp"
| "insert_nodes E histogram origin depth origin_position (candidate # rest) children sp =
     (let candidate_polar = toPolar E candidate (sp_tree_node_distance sp);
          node_location = polarHistogramToCartesian E candidate_polar origin_position;
          node_velocity =
            vadd (getVelocity (sp_tree sp ! tn_origin (sp_tree sp ! origin)))
              (vsub node_location origin_position)
      in if children < sp_children_per_node sp \<and> close_nodes (sp_tree sp) node_location = 0
         then insert_nodes E histogram origin depth origin_position rest (children + 1)
                (push_node E sp histogram origin depth origin_position candidate_polar
                   node_location node_velocity)
         else insert_nodes E histogram origin depth origin_position rest children sp)"

text \<open>
  Lines 127 to 138: the search for the node to continue with. The state of the loop is
  \<^verbatim>\<open>minimal_cost\<close>, \<^verbatim>\<open>origin\<close> and \<^verbatim>\<open>is_expanded_node\<close>; \<open>i\<close> is the index of the
  first node of the list still to visit.
\<close>

fun find_best ::
  "Vector3f \<Rightarrow> real \<Rightarrow> TreeNode list \<Rightarrow> nat \<Rightarrow> cfloat \<times> nat \<times> bool \<Rightarrow> cfloat \<times> nat \<times> bool" where
  "find_best pos max_len [] i st = st"
| "find_best pos max_len (nd # nds) i (minimal_cost, origin, is_expanded_node) =
     (if \<not> tn_closed nd \<and> fless (tn_total_cost nd) minimal_cost
           \<and> vnorm (vsub (getPosition nd) pos) < max_len
      then find_best pos max_len nds (i + 1) (tn_total_cost nd, i, True)
      else find_best pos max_len nds (i + 1) (minimal_cost, origin, is_expanded_node))"

text \<open>
  Lines 64 to 141: one pass through the body of the expansion loop. It returns the
  planner, the new value of \<^verbatim>\<open>origin\<close> and the new value of \<^verbatim>\<open>is_expanded_node\<close>.
  The locals \<^verbatim>\<open>facing_goal\<close> and \<^verbatim>\<open>distance_to_goal\<close> are computed and never read.
\<close>

definition expand_node ::
  "('cloud, 'hist, 'cm, 'cp, 'cand) collaborators \<Rightarrow> ('cloud, 'cp) StarPlanner \<Rightarrow> nat \<Rightarrow>
   ('cloud, 'cp) StarPlanner \<times> nat \<times> bool" where
  "expand_node E sp origin =
     (let origin_position = getPosition (sp_tree sp ! origin);
          origin_velocity = getVelocity (sp_tree sp ! origin);
          facing_goal = cartesianToPolarHistogram E (sp_goal sp) origin_position;
          distance_to_goal = vnorm (vsub (sp_goal sp) origin_position);
          histogram = generateNewHistogram E (sp_cloud sp) origin_position;
          cost_matrix = getCostMatrix E histogram (sp_goal sp) origin_position origin_velocity
                          (sp_cost_params sp) (sp_smoothing_margin_degrees sp);
          candidate_vector = getBestCandidatesFromCostMatrix E cost_matrix (sp_children_per_node sp);
          sp1 = (if candidate_vector = []
                 then sp\<lparr>sp_tree := (sp_tree sp)[origin := (sp_tree sp ! origin)\<lparr>tn_total_cost := HUGE_VAL\<rparr>]\<rparr>
                 else insert_nodes E histogram origin (tn_depth (sp_tree sp ! origin) + 1)
                        origin_position candidate_vector 0 sp);
          sp2 = sp1\<lparr>sp_closed_set := sp_closed_set sp1 @ [origin],
                    sp_tree := (sp_tree sp1)[origin := (sp_tree sp1 ! origin)\<lparr>tn_closed := True\<rparr>]\<rparr>;
          best = find_best (sp_position sp2) (sp_max_path_length sp2) (sp_tree sp2) 0
                   (HUGE_VAL, origin, False)
      in (sp2, fst (snd best), snd (snd best)))"

lemma insert_nodes_budget:
  "sp_n_expanded_nodes (insert_nodes E h origin d p cs k s) = sp_n_expanded_nodes s"
  by (induction cs arbitrary: k s) (simp_all add: Let_def push_node_def)

lemma expand_node_budget:
  "sp_n_expanded_nodes (fst (expand_node E sp origin)) = sp_n_expanded_nodes sp"
  by (simp add: expand_node_def Let_def insert_nodes_budget)

text \<open>Line 63: the expansion loop, with its counter \<open>n\<close>.\<close>

function expansion_loop ::
  "('cloud, 'hist, 'cm, 'cp, 'cand) collaborators \<Rightarrow> int \<Rightarrow> bool \<Rightarrow> nat \<Rightarrow>
   ('cloud, 'cp) StarPlanner \<Rightarrow> ('cloud, 'cp) StarPlanner \<times> nat" where
  "expansion_loop E n is_expanded_node origin sp =
     (if n < sp_n_expanded_nodes sp \<and> is_expanded_node
      then (case expand_node E sp origin of
              (sp', origin', is_expanded_node') \<Rightarrow>
                expansion_loop E (n + 1) is_expanded_node' origin' sp')
      else (sp, origin))"
  by pat_completeness auto
termination
  apply (relation "measure (\<lambda>(E, n, b, origin, sp). nat (sp_n_expanded_nodes sp - n))")
   apply simp
  subgoal for E n b origin sp
    using expand_node_budget[of E sp origin] by (cases "expand_node E sp origin") auto
  done

declare expansion_loop.simps [simp del]

text \<open>
  Lines 147 to 151: the walk from \<^verbatim>\<open>tree_end\<close> to the root. The source has no bound on
  it, so the model says nothing about its termination by definition: \<open>None\<close> stands
  for a walk that never reaches node 0.
\<close>

partial_function (option) backtrack ::
  "TreeNode list \<Rightarrow> nat \<Rightarrow> Vector3f list \<Rightarrow> nat list \<Rightarrow> (Vector3f list \<times> nat list) option" where
  "backtrack tree tree_end positions origins =
     (if tree_end > 0
      then backtrack tree (tn_origin (tree ! tree_end))
             (positions @ [getPosition (tree ! tree_end)]) (origins @ [tree_end])
      else Some (positions, origins))"

text \<open>Lines 53 to 60: the tree is cleared and the root is inserted.\<close>

definition insert_first_node :: "('cloud, 'cp) StarPlanner \<Rightarrow> ('cloud, 'cp) StarPlanner" where
  "insert_first_node sp =
     (let sp0 = sp\<lparr>sp_tree := [], sp_closed_set := []\<rparr>;
          sp1 = sp0\<lparr>sp_tree := sp_tree sp0 @ [mkTreeNode 0 0 (sp_position sp0) (sp_velocity sp0)]\<rparr>;
          k = length (sp_tree sp1) - 1;
          sp2 = sp1\<lparr>sp_tree := (sp_tree sp1)[k := setCosts (treeHeuristicFunction sp1 0)
                                             (treeHeuristicFunction sp1 0) (sp_tree sp1 ! k)]\<rparr>;
          sp3 = sp2\<lparr>sp_tree := (sp_tree sp2)[k := (sp_tree sp2 ! k)\<lparr>tn_yaw := sp_curr_yaw_histogram_frame_deg sp2\<rparr>]\<rparr>
      in sp3\<lparr>sp_tree := (sp_tree sp3)[k := (sp_tree sp3 ! k)\<lparr>tn_last_z := tn_yaw (sp_tree sp3 ! k)\<rparr>]\<rparr>)"

definition buildLookAheadTree ::
  "('cloud, 'hist, 'cm, 'cp, 'cand) collaborators \<Rightarrow> ('cloud, 'cp) StarPlanner \<Rightarrow>
   ('cloud, 'cp) StarPlanner option" where
  "buildLookAheadTree E sp =
     (case expansion_loop E 0 True 0 (insert_first_node sp) of
        (sp1, origin) \<Rightarrow>
          (case backtrack (sp_tree sp1) origin [] [] of
             None \<Rightarrow> None
           | Some (positions, origins) \<Rightarrow>
               Some (sp1\<lparr>sp_path_node_positions := positions @ [getPosition (sp_tree sp1 ! 0)],
                        sp_path_node_origins := origins @ [0],
                        sp_tree_age := 0\<rparr>)))"

section \<open>Rounding to single precision\<close>

text \<open>
  How \<open>fl32\<close> is computed: \<open>fl32 x\<close> is \<open>m * 2 powi (e - 23)\<close> as soon as \<open>x\<close>
  lies between \<open>2 powi e\<close> and \<open>2 powi (e + 1)\<close> and \<open>m\<close> is the integer nearest to
  \<open>x / 2 powi (e - 23)\<close>. Rounding commutes with the change of sign, and integers
  below \<open>2 ^ 24\<close> are numbers of the format.
\<close>

lemma round_even_near:
  assumes "\<bar>q - of_int m\<bar> < 1 / 2"
  shows "round_even q = m"
proof (cases "of_int m \<le> q")
  case True
  with assms have f: "\<lfloor>q\<rfloor> = m" by (intro floor_unique) auto
  with assms True show ?thesis by (simp add: round_even_def)
next
  case False
  with assms have f: "\<lfloor>q\<rfloor> = m - 1" by (intro floor_unique) auto
  with assms False show ?thesis by (auto simp add: round_even_def)
qed

lemma round_even_of_int: "round_even (of_int m) = m"
  by (rule round_even_near) simp

lemma floor_log2_eq:
  assumes "2 powi e \<le> x" "x < 2 powi (e + 1)"
  shows "\<lfloor>log 2 x\<rfloor> = e"
proof -
  have "0 < (2::real) powi e" by (rule zero_less_power_int) simp
  with assms(1) have x: "0 < x" by linarith
  have pw: "(2::real) powr real_of_int e = 2 powi e"
    "(2::real) powr real_of_int (e + 1) = 2 powi (e + 1)"
    by (rule powr_real_of_int', simp, simp)+
  have "2 powr real_of_int e \<le> x \<and> x < 2 powr real_of_int (e + 1)"
    unfolding pw using assms by (rule conjI)
  moreover have "(1::real) < 2" by simp
  ultimately show ?thesis
    using floor_log_eq_powr_iff[OF x, of 2 e] by (rule_tac iffD2)
qed

lemma fl32_eqI:
  assumes "2 powi e \<le> \<bar>x\<bar>" "\<bar>x\<bar> < 2 powi (e + 1)" "- 126 \<le> e"
    and "\<bar>x / 2 powi (e - 23) - of_int m\<bar> < 1 / 2"
  shows "fl32 x = of_int m * 2 powi (e - 23)"
proof -
  have p: "0 < (2::real) powi e" by (rule zero_less_power_int) simp
  have "x \<noteq> 0"
  proof
    assume "x = 0"
    with assms(1) have "2 powi e \<le> (0::real)" by simp
    with p show False by linarith
  qed
  moreover have "\<lfloor>log 2 \<bar>x\<bar>\<rfloor> = e"
    by (rule floor_log2_eq[OF assms(1,2)])
  ultimately show ?thesis
    using round_even_near[OF assms(4)] assms(3) by (simp add: fl32_def max_def)
qed



lemma fl32_0: "fl32 0 = 0"
  by (simp add: fl32_def)

lemma fl32_of_int:
  assumes "\<bar>m\<bar> < 16777216"
  shows "fl32 (of_int m) = of_int m"
proof (cases "m = 0")
  case True
  then show ?thesis by (simp add: fl32_def)
next
  case False
  define e where "e = \<lfloor>log 2 \<bar>real_of_int m\<bar>\<rfloor>"
  from False have "1 \<le> \<bar>m\<bar>" by simp
  then have m1: "1 \<le> \<bar>real_of_int m\<bar>"
    by (simp flip: of_int_abs)
  have pos: "0 < \<bar>real_of_int m\<bar>" using m1 by linarith
  have "0 \<le> log 2 \<bar>real_of_int m\<bar>"
    using m1 by simp
  then have e0: "0 \<le> e" by (simp add: e_def)
  have "\<bar>real_of_int m\<bar> < 2 powr 24"
    using assms by (simp flip: of_int_abs)
  then have "log 2 \<bar>real_of_int m\<bar> < 24"
    using pos by (simp add: log_less_iff)
  then have e23: "e \<le> 23"
    unfolding e_def by (simp add: floor_le_iff)
  define k where "k = nat (23 - e)"
  have u: "(2::real) powi (e - 23) = 1 / 2 ^ k"
    using e23 by (simp add: power_int_def k_def power_inverse inverse_eq_divide power_one_over)
  have "real_of_int m / 2 powi (e - 23) = of_int (m * 2 ^ k)"
    by (simp add: u)
  then have "round_even (real_of_int m / 2 powi (e - 23)) = m * 2 ^ k"
    by (simp only: round_even_of_int)
  then show ?thesis
    using False e0 by (simp add: fl32_def u max_def flip: e_def)
qed

lemma fl32_numeral: "numeral n < (16777216::int) \<Longrightarrow> fl32 (numeral n) = numeral n"
  using fl32_of_int[of "numeral n"] by simp

lemma fl32_neg_numeral: "numeral n < (16777216::int) \<Longrightarrow> fl32 (- numeral n) = - numeral n"
  using fl32_of_int[of "- numeral n"] by simp

lemma fl32_1: "fl32 1 = 1"
  using fl32_of_int[of 1] by simp

lemma fl32_neg_1: "fl32 (- 1) = - 1"
  using fl32_of_int[of "- 1"] by simp



lemma fl32_threshold: "fl32 (2 / 10) = 13421773 / 67108864"
  using fl32_eqI[of "- 3" "2 / 10" 13421773] by simp

lemma fl32_fifth: "fl32 (1 / 5) = 13421773 / 67108864"
  using fl32_threshold by simp

lemmas fl32_eval = fl32_0 fl32_1 fl32_neg_1 fl32_numeral fl32_neg_numeral fl32_fifth

section \<open>One pass through the loop body\<close>

text \<open>The node that \<open>push_node\<close> leaves at the end of the tree.\<close>

definition new_node ::
  "('cloud, 'hist, 'cm, 'cp, 'cand) collaborators \<Rightarrow> ('cloud, 'cp) StarPlanner \<Rightarrow> 'hist \<Rightarrow>
   nat \<Rightarrow> int \<Rightarrow> Vector3f \<Rightarrow> PolarPoint \<Rightarrow> Vector3f \<Rightarrow> Vector3f \<Rightarrow> TreeNode" where
  "new_node E sp histogram origin depth origin_position candidate_polar node_location
     node_velocity =
     \<lparr>tn_position = node_location, tn_velocity = node_velocity,
      tn_total_cost =
        fadd (fadd (fsub
            (tn_total_cost ((sp_tree sp @ [(mkTreeNode origin depth node_location node_velocity)
               \<lparr>tn_last_e := pp_e candidate_polar, tn_last_z := pp_z candidate_polar,
                tn_heuristic := Fin (vnorm (vsub (sp_goal sp) node_location))\<rparr>]) ! origin))
            (tn_heuristic ((sp_tree sp @ [(mkTreeNode origin depth node_location node_velocity)
               \<lparr>tn_last_e := pp_e candidate_polar, tn_last_z := pp_z candidate_polar,
                tn_heuristic := Fin (vnorm (vsub (sp_goal sp) node_location))\<rparr>]) ! origin)))
          (costFunction E candidate_polar
             (get_dist E histogram (fst (polarToHistogramIndex E candidate_polar (ALPHA_RES E)))
                (snd (polarToHistogramIndex E candidate_polar (ALPHA_RES E))))
             (sp_goal sp) node_location node_velocity (sp_cost_params sp)))
          (Fin (vnorm (vsub (sp_goal sp) node_location))),
      tn_heuristic = Fin (vnorm (vsub (sp_goal sp) node_location)),
      tn_last_e = pp_e candidate_polar, tn_last_z = pp_z candidate_polar,
      tn_origin = origin, tn_depth = depth,
      tn_yaw = cround (- atan2 (vy (vsub node_location origin_position))
                           (vx (vsub node_location origin_position)) * 180 / pi) + 90,
      tn_closed = False\<rparr>"

lemma push_node_eq:
  "push_node E sp h origin d p cp loc vel
     = sp\<lparr>sp_tree := sp_tree sp @ [new_node E sp h origin d p cp loc vel]\<rparr>"
  by (simp add: push_node_def new_node_def Let_def mkTreeNode_def treeHeuristicFunction_def
      getPosition_def nth_append)

lemma new_node_fields:
  "tn_origin (new_node E sp h origin d p cp loc vel) = origin"
  "tn_depth (new_node E sp h origin d p cp loc vel) = d"
  "tn_position (new_node E sp h origin d p cp loc vel) = loc"
  "tn_velocity (new_node E sp h origin d p cp loc vel) = vel"
  "tn_closed (new_node E sp h origin d p cp loc vel) = False"
  "tn_heuristic (new_node E sp h origin d p cp loc vel) = Fin (vnorm (vsub (sp_goal sp) loc))"
  by (simp_all add: new_node_def)

lemma new_node_cost:
  assumes "origin < length (sp_tree sp)"
  shows "tn_total_cost (new_node E sp h origin d p cp loc vel) =
     fadd (fadd (fsub (tn_total_cost (sp_tree sp ! origin)) (tn_heuristic (sp_tree sp ! origin)))
          (costFunction E cp
             (get_dist E h (fst (polarToHistogramIndex E cp (ALPHA_RES E)))
                (snd (polarToHistogramIndex E cp (ALPHA_RES E))))
             (sp_goal sp) loc vel (sp_cost_params sp)))
       (Fin (vnorm (vsub (sp_goal sp) loc)))"
  using assms by (simp add: new_node_def nth_append)

text \<open>The node pushed for candidate \<open>c\<close>: lines 88 to 93 give its location and velocity.\<close>

definition child_of ::
  "('cloud, 'hist, 'cm, 'cp, 'cand) collaborators \<Rightarrow> ('cloud, 'cp) StarPlanner \<Rightarrow> 'hist \<Rightarrow>
   nat \<Rightarrow> int \<Rightarrow> Vector3f \<Rightarrow> 'cand \<Rightarrow> TreeNode" where
  "child_of E sp h origin d p c =
     new_node E sp h origin d p (toPolar E c (sp_tree_node_distance sp))
       (polarHistogramToCartesian E (toPolar E c (sp_tree_node_distance sp)) p)
       (vadd (getVelocity (sp_tree sp ! tn_origin (sp_tree sp ! origin)))
          (vsub (polarHistogramToCartesian E (toPolar E c (sp_tree_node_distance sp)) p) p))"

lemma insert_nodes_Cons:
  "insert_nodes E h origin d p (c # cs) k sp =
     (if k < sp_children_per_node sp \<and>
         close_nodes (sp_tree sp)
           (polarHistogramToCartesian E (toPolar E c (sp_tree_node_distance sp)) p) = 0
      then insert_nodes E h origin d p cs (k + 1)
             (sp\<lparr>sp_tree := sp_tree sp @ [child_of E sp h origin d p c]\<rparr>)
      else insert_nodes E h origin d p cs k sp)"
  by (simp add: Let_def child_of_def push_node_eq)

lemma insert_nodes_frame:
  "insert_nodes E h origin d p cs k sp = sp\<lparr>sp_tree := sp_tree (insert_nodes E h origin d p cs k sp)\<rparr>"
proof (induction cs arbitrary: k sp)
  case Nil
  show ?case by simp
next
  case (Cons c cs)
  show ?case
  proof (cases "k < sp_children_per_node sp \<and> close_nodes (sp_tree sp)
        (polarHistogramToCartesian E (toPolar E c (sp_tree_node_distance sp)) p) = 0")
    case True
    have "insert_nodes E h origin d p cs (k + 1)
          (sp\<lparr>sp_tree := sp_tree sp @ [child_of E sp h origin d p c]\<rparr>)
        = sp\<lparr>sp_tree := sp_tree (insert_nodes E h origin d p cs (k + 1)
            (sp\<lparr>sp_tree := sp_tree sp @ [child_of E sp h origin d p c]\<rparr>))\<rparr>"
      by (subst Cons.IH) simp
    with True show ?thesis
      by (simp add: insert_nodes_Cons del: insert_nodes.simps)
  next
    case False
    with Cons.IH[of k sp] show ?thesis
      by (auto simp add: insert_nodes_Cons simp del: insert_nodes.simps)
  qed
qed

lemma insert_nodes_extends:
  "\<exists>xs. sp_tree (insert_nodes E h origin d p cs k sp) = sp_tree sp @ xs"
proof (induction cs arbitrary: k sp)
  case Nil
  show ?case by simp
next
  case (Cons c cs)
  show ?case
  proof (cases "k < sp_children_per_node sp \<and> close_nodes (sp_tree sp)
        (polarHistogramToCartesian E (toPolar E c (sp_tree_node_distance sp)) p) = 0")
    case True
    from Cons.IH[of "k + 1" "sp\<lparr>sp_tree := sp_tree sp @ [child_of E sp h origin d p c]\<rparr>"]
    obtain xs where "sp_tree (insert_nodes E h origin d p cs (k + 1)
          (sp\<lparr>sp_tree := sp_tree sp @ [child_of E sp h origin d p c]\<rparr>))
        = sp_tree sp @ child_of E sp h origin d p c # xs"
      by auto
    with True show ?thesis
      by (simp add: insert_nodes_Cons del: insert_nodes.simps)
  next
    case False
    with Cons.IH[of k sp] show ?thesis
      by (auto simp add: insert_nodes_Cons simp del: insert_nodes.simps)
  qed
qed

lemma insert_nodes_extendsE:
  obtains xs where "sp_tree (insert_nodes E h origin d p cs k sp) = sp_tree sp @ xs"
  using insert_nodes_extends[of E h origin d p cs k sp] by (elim exE)

lemma child_of_extended:
  assumes "origin < length (sp_tree sp)" "tn_origin (sp_tree sp ! origin) < length (sp_tree sp)"
  shows "child_of E (sp\<lparr>sp_tree := sp_tree sp @ ys\<rparr>) h origin d p c = child_of E sp h origin d p c"
  using assms by (simp add: child_of_def new_node_def nth_append)


lemma insert_nodes_count:
  "int (length (sp_tree (insert_nodes E h origin d p cs k sp)))
     \<le> int (length (sp_tree sp)) + max 0 (sp_children_per_node sp - k)"
proof (induction cs arbitrary: k sp)
  case Nil
  show ?case by simp
next
  case (Cons c cs)
  show ?case
    using Cons.IH[of "k + 1" "sp\<lparr>sp_tree := sp_tree sp @ [child_of E sp h origin d p c]\<rparr>"]
      Cons.IH[of k sp]
    by (auto simp add: insert_nodes_Cons simp del: insert_nodes.simps)
qed

lemma insert_nodes_children:
  assumes "origin < length (sp_tree sp)" "tn_origin (sp_tree sp ! origin) < length (sp_tree sp)"
    and "length (sp_tree sp) \<le> i" "i < length (sp_tree (insert_nodes E h origin d p cs k sp))"
  shows "\<exists>c \<in> set cs. sp_tree (insert_nodes E h origin d p cs k sp) ! i = child_of E sp h origin d p c"
  using assms
proof (induction cs arbitrary: k sp)
  case Nil
  then show ?case by simp
next
  case (Cons c cs)
  show ?case
  proof (cases "k < sp_children_per_node sp \<and>
         close_nodes (sp_tree sp)
           (polarHistogramToCartesian E (toPolar E c (sp_tree_node_distance sp)) p) = 0")
    case True
    let ?s = "sp\<lparr>sp_tree := sp_tree sp @ [child_of E sp h origin d p c]\<rparr>"
    have eq: "insert_nodes E h origin d p (c # cs) k sp = insert_nodes E h origin d p cs (k + 1) ?s"
      using True by (subst insert_nodes_Cons) simp
    have ch: "child_of E ?s h origin d p c' = child_of E sp h origin d p c'" for c'
      by (rule child_of_extended[OF Cons.prems(1,2)])
    show ?thesis
    proof (cases "i = length (sp_tree sp)")
      case True
      obtain xs where "sp_tree (insert_nodes E h origin d p cs (k + 1) ?s) = sp_tree ?s @ xs"
        by (rule insert_nodes_extendsE)
      then have "sp_tree (insert_nodes E h origin d p (c # cs) k sp) ! i = child_of E sp h origin d p c"
        using True eq by (simp add: nth_append)
      then show ?thesis by simp
    next
      case False
      have "\<exists>c' \<in> set cs. sp_tree (insert_nodes E h origin d p cs (k + 1) ?s) ! i = child_of E ?s h origin d p c'"
        using Cons.prems False eq
        by (intro Cons.IH) (simp_all add: nth_append)
      then show ?thesis
        using eq ch by auto
    qed
  next
    case False
    have eq: "insert_nodes E h origin d p (c # cs) k sp = insert_nodes E h origin d p cs k sp"
      by (simp only: insert_nodes_Cons False if_False)
    have "\<exists>c' \<in> set cs. sp_tree (insert_nodes E h origin d p cs k sp) ! i = child_of E sp h origin d p c'"
      using Cons.prems eq by (intro Cons.IH) simp_all
    then show ?thesis
      using eq by auto
  qed
qed






lemma fless_trans: "fless a b \<Longrightarrow> fless b c \<Longrightarrow> fless a c"
  by (cases a; cases b; cases c) auto

lemma fless_irrefl: "\<not> fless a a"
  by (cases a) auto

lemma not_fless_Fin: "\<not> fless (Fin a) (Fin b) \<longleftrightarrow> b \<le> a"
  by auto

text \<open>The test of lines 130 to 132 on a node, without the comparison of the costs.\<close>

definition selectable :: "Vector3f \<Rightarrow> real \<Rightarrow> TreeNode \<Rightarrow> bool" where
  "selectable pos max_len nd \<longleftrightarrow> \<not> tn_closed nd \<and> vnorm (vsub (getPosition nd) pos) < max_len"

lemma find_best_Cons:
  "find_best pos ml (nd # nds) i (m, origin, b) =
     (if selectable pos ml nd \<and> fless (tn_total_cost nd) m
      then find_best pos ml nds (i + 1) (tn_total_cost nd, i, True)
      else find_best pos ml nds (i + 1) (m, origin, b))"
  by (auto simp add: selectable_def)

lemma drop_eq_ConsD:
  assumes "drop i T = nd # nds"
  shows "i < length T \<and> T ! i = nd \<and> drop (Suc i) T = nds"
proof -
  from assms have i: "i < length T"
    by (metis drop_all list.distinct(1) not_le)
  then have "drop i T = T ! i # drop (Suc i) T"
    by (simp add: Cons_nth_drop_Suc)
  with assms i show ?thesis by simp
qed

lemma find_best_inv:
  assumes "drop i T = nds" "i \<le> length T"
    and "\<forall>j<i. selectable pos ml (T ! j) \<longrightarrow> \<not> fless (tn_total_cost (T ! j)) m"
    and "b \<longrightarrow> origin < i \<and> selectable pos ml (T ! origin) \<and> m = tn_total_cost (T ! origin)"
    and "find_best pos ml nds i (m, origin, b) = (m', origin', b')"
  shows "(\<forall>j<length T. selectable pos ml (T ! j) \<longrightarrow> \<not> fless (tn_total_cost (T ! j)) m')
       \<and> (b' \<longrightarrow> origin' < length T \<and> selectable pos ml (T ! origin')
                \<and> m' = tn_total_cost (T ! origin'))
       \<and> (\<not> b' \<longrightarrow> \<not> b \<and> origin' = origin \<and> m' = m)"
  using assms
proof (induction nds arbitrary: i m origin b)
  case Nil
  then have "length T = i" by simp
  with Nil show ?case by auto
next
  case (Cons nd nds)
  from drop_eq_ConsD[OF Cons.prems(1)]
  have i: "i < length T" and nd: "T ! i = nd" and dr: "drop (i + 1) T = nds"
    by simp_all
  show ?case
  proof (cases "selectable pos ml nd \<and> fless (tn_total_cost nd) m")
    case True
    have fb: "find_best pos ml nds (i + 1) (tn_total_cost nd, i, True) = (m', origin', b')"
      using Cons.prems(5) True by (simp add: find_best_Cons del: find_best.simps)
    have low: "\<forall>j<i + 1. selectable pos ml (T ! j) \<longrightarrow> \<not> fless (tn_total_cost (T ! j)) (tn_total_cost nd)"
    proof (intro allI impI)
      fix j assume j: "j < i + 1" and s: "selectable pos ml (T ! j)"
      show "\<not> fless (tn_total_cost (T ! j)) (tn_total_cost nd)"
      proof (cases "j = i")
        case True
        then show ?thesis using nd by (simp add: fless_irrefl)
      next
        case False
        with j have "j < i" by simp
        with Cons.prems(3) s have "\<not> fless (tn_total_cost (T ! j)) m" by simp
        with True show ?thesis using fless_trans by blast
      qed
    qed
    have "(\<forall>j<length T. selectable pos ml (T ! j) \<longrightarrow> \<not> fless (tn_total_cost (T ! j)) m')
       \<and> (b' \<longrightarrow> origin' < length T \<and> selectable pos ml (T ! origin')
                \<and> m' = tn_total_cost (T ! origin'))
       \<and> (\<not> b' \<longrightarrow> \<not> True \<and> origin' = i \<and> m' = tn_total_cost nd)"
      using dr low True nd fb i by (intro Cons.IH) simp_all
    then show ?thesis by auto
  next
    case False
    have fb: "find_best pos ml nds (i + 1) (m, origin, b) = (m', origin', b')"
      using Cons.prems(5) False by (simp add: find_best_Cons del: find_best.simps)
    have low: "\<forall>j<i + 1. selectable pos ml (T ! j) \<longrightarrow> \<not> fless (tn_total_cost (T ! j)) m"
    proof (intro allI impI)
      fix j assume j: "j < i + 1" and s: "selectable pos ml (T ! j)"
      show "\<not> fless (tn_total_cost (T ! j)) m"
      proof (cases "j = i")
        case True
        then show ?thesis using nd False s by simp
      next
        case False
        with j have "j < i" by simp
        with Cons.prems(3) s show ?thesis by simp
      qed
    qed
    have b: "b \<longrightarrow> origin < i + 1 \<and> selectable pos ml (T ! origin) \<and> m = tn_total_cost (T ! origin)"
      using Cons.prems(4) by auto
    show ?thesis
      using dr low b fb i by (intro Cons.IH) simp_all
  qed
qed

text \<open>
  The histogram of line 70 and the candidates of lines 76 to 78 when the node
  \<open>origin\<close> is expanded; the tree after lines 81 to 121, and after line 124.
\<close>

definition histogram_at ::
  "('cloud, 'hist, 'cm, 'cp, 'cand) collaborators \<Rightarrow> ('cloud, 'cp) StarPlanner \<Rightarrow> nat \<Rightarrow> 'hist" where
  "histogram_at E sp origin = generateNewHistogram E (sp_cloud sp) (getPosition (sp_tree sp ! origin))"

definition candidates_at ::
  "('cloud, 'hist, 'cm, 'cp, 'cand) collaborators \<Rightarrow> ('cloud, 'cp) StarPlanner \<Rightarrow> nat \<Rightarrow> 'cand list" where
  "candidates_at E sp origin =
     getBestCandidatesFromCostMatrix E
       (getCostMatrix E (histogram_at E sp origin) (sp_goal sp) (getPosition (sp_tree sp ! origin))
          (getVelocity (sp_tree sp ! origin)) (sp_cost_params sp) (sp_smoothing_margin_degrees sp))
       (sp_children_per_node sp)"

definition grown_tree ::
  "('cloud, 'hist, 'cm, 'cp, 'cand) collaborators \<Rightarrow> ('cloud, 'cp) StarPlanner \<Rightarrow> nat \<Rightarrow> TreeNode list" where
  "grown_tree E sp origin =
     (if candidates_at E sp origin = []
      then (sp_tree sp)[origin := (sp_tree sp ! origin)\<lparr>tn_total_cost := HUGE_VAL\<rparr>]
      else sp_tree (insert_nodes E (histogram_at E sp origin) origin
             (tn_depth (sp_tree sp ! origin) + 1) (getPosition (sp_tree sp ! origin))
             (candidates_at E sp origin) 0 sp))"

definition closed_tree ::
  "('cloud, 'hist, 'cm, 'cp, 'cand) collaborators \<Rightarrow> ('cloud, 'cp) StarPlanner \<Rightarrow> nat \<Rightarrow> TreeNode list" where
  "closed_tree E sp origin =
     (grown_tree E sp origin)[origin := (grown_tree E sp origin ! origin)\<lparr>tn_closed := True\<rparr>]"

lemma expand_node_eq:
  "expand_node E sp origin =
     (sp\<lparr>sp_tree := closed_tree E sp origin, sp_closed_set := sp_closed_set sp @ [origin]\<rparr>,
      snd (find_best (sp_position sp) (sp_max_path_length sp) (closed_tree E sp origin) 0
             (HUGE_VAL, origin, False)))"
proof (cases "candidates_at E sp origin = []")
  case True
  then show ?thesis
    by (simp add: expand_node_def Let_def closed_tree_def grown_tree_def candidates_at_def
        histogram_at_def)
next
  case False
  define ins where "ins = insert_nodes E (histogram_at E sp origin) origin
             (tn_depth (sp_tree sp ! origin) + 1) (getPosition (sp_tree sp ! origin))
             (candidates_at E sp origin) 0 sp"
  define T' where "T' = sp_tree ins"
  have fr: "ins = sp\<lparr>sp_tree := T'\<rparr>"
    unfolding ins_def T'_def by (rule insert_nodes_frame)
  have gt: "grown_tree E sp origin = T'"
    using False by (simp add: grown_tree_def T'_def ins_def)
  have "expand_node E sp origin =
     (ins\<lparr>sp_closed_set := sp_closed_set ins @ [origin],
            sp_tree := (sp_tree ins)[origin := (sp_tree ins ! origin)\<lparr>tn_closed := True\<rparr>]\<rparr>,
      snd (find_best (sp_position ins) (sp_max_path_length ins)
             ((sp_tree ins)[origin := (sp_tree ins ! origin)\<lparr>tn_closed := True\<rparr>]) 0
             (HUGE_VAL, origin, False)))"
    using False
    by (simp add: expand_node_def Let_def candidates_at_def histogram_at_def ins_def)
  then show ?thesis
    by (simp add: fr closed_tree_def gt)
qed


lemma child_of_fields:
  "tn_origin (child_of E sp h origin d p c) = origin"
  "tn_depth (child_of E sp h origin d p c) = d"
  "tn_closed (child_of E sp h origin d p c) = False"
  "getVelocity (child_of E sp h origin d p c)
     = vadd (getVelocity (sp_tree sp ! tn_origin (sp_tree sp ! origin)))
         (vsub (getPosition (child_of E sp h origin d p c)) p)"
  by (simp_all add: child_of_def new_node_fields getVelocity_def getPosition_def)

lemma closed_tree_shape:
  assumes "origin < length (sp_tree sp)" "tn_origin (sp_tree sp ! origin) < length (sp_tree sp)"
  shows "\<exists>xs. closed_tree E sp origin =
            (sp_tree sp)[origin := (sp_tree sp ! origin)
               \<lparr>tn_total_cost := (if candidates_at E sp origin = [] then HUGE_VAL
                                  else tn_total_cost (sp_tree sp ! origin)),
                tn_closed := True\<rparr>] @ xs
          \<and> (candidates_at E sp origin = [] \<longrightarrow> xs = [])
          \<and> int (length xs) \<le> max 0 (sp_children_per_node sp)
          \<and> (\<forall>nd \<in> set xs. \<exists>c \<in> set (candidates_at E sp origin).
                nd = child_of E sp (histogram_at E sp origin) origin
                       (tn_depth (sp_tree sp ! origin) + 1) (getPosition (sp_tree sp ! origin)) c)"
proof (cases "candidates_at E sp origin = []")
  case True
  then show ?thesis
    using assms by (simp add: closed_tree_def grown_tree_def)
next
  case False
  define ins where "ins = insert_nodes E (histogram_at E sp origin) origin
             (tn_depth (sp_tree sp ! origin) + 1) (getPosition (sp_tree sp ! origin))
             (candidates_at E sp origin) 0 sp"
  obtain xs where xs: "sp_tree ins = sp_tree sp @ xs"
    unfolding ins_def by (rule insert_nodes_extendsE)
  have gt: "grown_tree E sp origin = sp_tree sp @ xs"
    using False xs by (simp add: grown_tree_def ins_def)
  have cl: "closed_tree E sp origin =
      (sp_tree sp)[origin := (sp_tree sp ! origin)\<lparr>tn_closed := True\<rparr>] @ xs"
    using assms(1) by (simp add: closed_tree_def gt nth_append list_update_append1)
  have cnt: "int (length xs) \<le> max 0 (sp_children_per_node sp)"
    using insert_nodes_count[of E "histogram_at E sp origin" origin
        "tn_depth (sp_tree sp ! origin) + 1" "getPosition (sp_tree sp ! origin)"
        "candidates_at E sp origin" 0 sp] xs
    by (simp add: ins_def)
  have ch: "\<exists>c \<in> set (candidates_at E sp origin).
                nd = child_of E sp (histogram_at E sp origin) origin
                       (tn_depth (sp_tree sp ! origin) + 1) (getPosition (sp_tree sp ! origin)) c"
    if "nd \<in> set xs" for nd
  proof -
    from that obtain j where j: "j < length xs" "xs ! j = nd"
      by (auto simp add: in_set_conv_nth)
    have "\<exists>c \<in> set (candidates_at E sp origin).
        sp_tree ins ! (length (sp_tree sp) + j) = child_of E sp (histogram_at E sp origin) origin
                       (tn_depth (sp_tree sp ! origin) + 1) (getPosition (sp_tree sp ! origin)) c"
      unfolding ins_def
      using assms j xs by (intro insert_nodes_children) (simp_all add: ins_def)
    with j xs show ?thesis by simp
  qed
  show ?thesis
    using False cl cnt ch by auto
qed

section \<open>Invariants of the expansion loop\<close>

text \<open>
  The shape of the tree. With it every index the source reads lies inside the tree:
  \<^verbatim>\<open>origin\<close>, the parent of \<^verbatim>\<open>origin\<close> in line 93, and the indices of the walk to the
  root in lines 147 to 151.
\<close>

definition tree_ok :: "TreeNode list \<Rightarrow> bool" where
  "tree_ok T \<longleftrightarrow>
     T \<noteq> [] \<and> tn_origin (T ! 0) = 0 \<and> tn_depth (T ! 0) = 0 \<and>
     (\<forall>i. 0 < i \<and> i < length T \<longrightarrow>
        tn_origin (T ! i) < i \<and> tn_depth (T ! i) = tn_depth (T ! tn_origin (T ! i)) + 1)"

lemma tree_ok_origin_le: "tree_ok T \<Longrightarrow> i < length T \<Longrightarrow> tn_origin (T ! i) \<le> i"
  by (cases "i = 0") (auto simp add: tree_ok_def)

lemma tree_ok_origin_less: "tree_ok T \<Longrightarrow> i < length T \<Longrightarrow> tn_origin (T ! i) < length T"
  using tree_ok_origin_le by fastforce

text \<open>
  The origin as a pass leaves it, and the nodes a pass may append: the nodes of the
  candidates at the origin.
\<close>

definition closed_origin ::
  "('cloud, 'hist, 'cm, 'cp, 'cand) collaborators \<Rightarrow> ('cloud, 'cp) StarPlanner \<Rightarrow> nat \<Rightarrow> TreeNode" where
  "closed_origin E sp origin =
     (sp_tree sp ! origin)
       \<lparr>tn_total_cost := (if candidates_at E sp origin = [] then HUGE_VAL
                          else tn_total_cost (sp_tree sp ! origin)),
        tn_closed := True\<rparr>"

definition is_child ::
  "('cloud, 'hist, 'cm, 'cp, 'cand) collaborators \<Rightarrow> ('cloud, 'cp) StarPlanner \<Rightarrow> nat \<Rightarrow>
   TreeNode \<Rightarrow> bool" where
  "is_child E sp origin nd \<longleftrightarrow>
     (\<exists>c \<in> set (candidates_at E sp origin).
        nd = child_of E sp (histogram_at E sp origin) origin
               (tn_depth (sp_tree sp ! origin) + 1) (getPosition (sp_tree sp ! origin)) c)"

lemma closed_origin_fields:
  "tn_origin (closed_origin E sp origin) = tn_origin (sp_tree sp ! origin)"
  "tn_depth (closed_origin E sp origin) = tn_depth (sp_tree sp ! origin)"
  "getPosition (closed_origin E sp origin) = getPosition (sp_tree sp ! origin)"
  "getVelocity (closed_origin E sp origin) = getVelocity (sp_tree sp ! origin)"
  "tn_heuristic (closed_origin E sp origin) = tn_heuristic (sp_tree sp ! origin)"
  "tn_closed (closed_origin E sp origin) = True"
  by (simp_all add: closed_origin_def getPosition_def getVelocity_def)

lemma is_child_fields:
  assumes "is_child E sp origin nd"
  shows "tn_origin nd = origin" "tn_depth nd = tn_depth (sp_tree sp ! origin) + 1"
    "tn_closed nd = False"
    "getVelocity nd = vadd (getVelocity (sp_tree sp ! tn_origin (sp_tree sp ! origin)))
         (vsub (getPosition nd) (getPosition (sp_tree sp ! origin)))"
  using assms by (auto simp add: is_child_def child_of_fields)

lemma expand_node_step:
  assumes "origin < length (sp_tree sp)" "tn_origin (sp_tree sp ! origin) < length (sp_tree sp)"
  obtains xs origin' b' where
    "expand_node E sp origin =
       (sp\<lparr>sp_tree := (sp_tree sp)[origin := closed_origin E sp origin] @ xs,
           sp_closed_set := sp_closed_set sp @ [origin]\<rparr>, origin', b')"
    "candidates_at E sp origin = [] \<longrightarrow> xs = []"
    "int (length xs) \<le> max 0 (sp_children_per_node sp)"
    "\<forall>nd \<in> set xs. is_child E sp origin nd"
    "\<forall>j<length (closed_tree E sp origin).
        selectable (sp_position sp) (sp_max_path_length sp) (closed_tree E sp origin ! j) \<longrightarrow>
        (if b' then \<not> fless (tn_total_cost (closed_tree E sp origin ! j))
                        (tn_total_cost (closed_tree E sp origin ! origin'))
         else \<not> fless (tn_total_cost (closed_tree E sp origin ! j)) HUGE_VAL)"
    "b' \<longrightarrow> origin' < length (closed_tree E sp origin)
         \<and> selectable (sp_position sp) (sp_max_path_length sp) (closed_tree E sp origin ! origin')"
    "\<not> b' \<longrightarrow> origin' = origin"
proof -
  from closed_tree_shape[OF assms, of E] obtain xs where
    xs: "closed_tree E sp origin = (sp_tree sp)[origin := closed_origin E sp origin] @ xs"
      "candidates_at E sp origin = [] \<longrightarrow> xs = []"
      "int (length xs) \<le> max 0 (sp_children_per_node sp)"
      "\<forall>nd \<in> set xs. is_child E sp origin nd"
    unfolding closed_origin_def is_child_def by blast
  obtain m' origin' b' where fb:
    "find_best (sp_position sp) (sp_max_path_length sp) (closed_tree E sp origin) 0
       (HUGE_VAL, origin, False) = (m', origin', b')"
    by (cases "find_best (sp_position sp) (sp_max_path_length sp) (closed_tree E sp origin) 0
       (HUGE_VAL, origin, False)") auto
  have inv: "(\<forall>j<length (closed_tree E sp origin).
        selectable (sp_position sp) (sp_max_path_length sp) (closed_tree E sp origin ! j) \<longrightarrow>
           \<not> fless (tn_total_cost (closed_tree E sp origin ! j)) m')
       \<and> (b' \<longrightarrow> origin' < length (closed_tree E sp origin)
             \<and> selectable (sp_position sp) (sp_max_path_length sp) (closed_tree E sp origin ! origin')
             \<and> m' = tn_total_cost (closed_tree E sp origin ! origin'))
       \<and> (\<not> b' \<longrightarrow> \<not> False \<and> origin' = origin \<and> m' = HUGE_VAL)"
    by (rule find_best_inv[OF _ _ _ _ fb]) simp_all
  have e: "expand_node E sp origin =
       (sp\<lparr>sp_tree := (sp_tree sp)[origin := closed_origin E sp origin] @ xs,
           sp_closed_set := sp_closed_set sp @ [origin]\<rparr>, origin', b')"
    by (simp add: expand_node_eq fb flip: xs(1))
  show thesis
    apply (rule that[OF e xs(2,3,4)])
    using inv by auto
qed

lemma expansion_loop_rule:
  assumes "I n b origin sp"
    and "\<And>n origin sp. I n True origin sp \<Longrightarrow> n < sp_n_expanded_nodes sp \<Longrightarrow>
           I (n + 1) (snd (snd (expand_node E sp origin))) (fst (snd (expand_node E sp origin)))
             (fst (expand_node E sp origin))"
  shows "\<exists>n' b'. I n' b' (snd (expansion_loop E n b origin sp)) (fst (expansion_loop E n b origin sp))
           \<and> \<not> (n' < sp_n_expanded_nodes (fst (expansion_loop E n b origin sp)) \<and> b')"
  using assms
proof (induction E n b origin sp rule: expansion_loop.induct)
  case (1 E n b origin sp)
  show ?case
  proof (cases "n < sp_n_expanded_nodes sp \<and> b")
    case True
    obtain sp' origin' b' where e: "expand_node E sp origin = (sp', origin', b')"
      by (cases "expand_node E sp origin") auto
    have "I (n + 1) b' origin' sp'"
      using "1.prems"(2)[of n origin sp] True "1.prems"(1) e by simp
    from "1.IH"[OF True e[symmetric] refl this "1.prems"(2)] True e
    show ?thesis
      by (subst (1 2 3) expansion_loop.simps) simp
  next
    case False
    with "1.prems"(1) show ?thesis
      by (subst (1 2 3) expansion_loop.simps) auto
  qed
qed


lemma nth_stepped:
  assumes "origin < length T"
  shows "(T[origin := u] @ xs) ! i =
           (if i < length T then (if i = origin then u else T ! i) else xs ! (i - length T))"
  using assms by (simp add: nth_append nth_list_update)

lemma tree_ok_stepped:
  assumes ok: "tree_ok T" and o: "origin < length T"
    and u: "tn_origin u = tn_origin (T ! origin)" "tn_depth u = tn_depth (T ! origin)"
    and xs: "\<forall>nd \<in> set xs. tn_origin nd = origin \<and> tn_depth nd = tn_depth (T ! origin) + 1"
  shows "tree_ok (T[origin := u] @ xs)"
proof -
  let ?T = "T[origin := u] @ xs"
  have old: "tn_origin (?T ! i) = tn_origin (T ! i) \<and> tn_depth (?T ! i) = tn_depth (T ! i)"
    if "i < length T" for i
    using that o u by (simp add: nth_stepped)
  have new: "tn_origin (?T ! i) = origin \<and> tn_depth (?T ! i) = tn_depth (T ! origin) + 1"
    if "length T \<le> i" "i < length ?T" for i
  proof -
    from that have "xs ! (i - length T) \<in> set xs" by simp
    with xs that o show ?thesis by (simp add: nth_stepped)
  qed
  have T0: "0 < length T" using ok by (simp add: tree_ok_def)
  have "tn_origin (?T ! i) < i \<and> tn_depth (?T ! i) = tn_depth (?T ! tn_origin (?T ! i)) + 1"
    if i: "0 < i" "i < length ?T" for i
  proof (cases "i < length T")
    case True
    with ok i have a: "tn_origin (T ! i) < i" "tn_depth (T ! i) = tn_depth (T ! tn_origin (T ! i)) + 1"
      by (simp_all add: tree_ok_def)
    with True have "tn_origin (T ! i) < length T" by simp
    with old[of i] old[of "tn_origin (T ! i)"] a True show ?thesis by simp
  next
    case False
    with new[of i] i old[of origin] o show ?thesis by simp
  qed
  moreover have "?T \<noteq> []" using T0 by auto
  moreover have "tn_origin (?T ! 0) = 0 \<and> tn_depth (?T ! 0) = 0"
    using old[of 0] T0 ok by (simp add: tree_ok_def)
  ultimately show ?thesis
    by (simp add: tree_ok_def)
qed

definition base_inv :: "nat \<Rightarrow> ('cloud, 'cp) StarPlanner \<Rightarrow> bool" where
  "base_inv origin sp \<longleftrightarrow> tree_ok (sp_tree sp) \<and> origin < length (sp_tree sp)"

lemma base_inv_step:
  assumes "base_inv origin sp"
  shows "base_inv (fst (snd (expand_node E sp origin))) (fst (expand_node E sp origin))"
proof -
  from assms have ok: "tree_ok (sp_tree sp)" and o: "origin < length (sp_tree sp)"
    by (simp_all add: base_inv_def)
  from tree_ok_origin_less[OF ok o] have po: "tn_origin (sp_tree sp ! origin) < length (sp_tree sp)" .
  obtain xs origin' b' where
    e: "expand_node E sp origin =
       (sp\<lparr>sp_tree := (sp_tree sp)[origin := closed_origin E sp origin] @ xs,
           sp_closed_set := sp_closed_set sp @ [origin]\<rparr>, origin', b')"
    and ch: "\<forall>nd \<in> set xs. is_child E sp origin nd"
    and sel: "b' \<longrightarrow> origin' < length (closed_tree E sp origin)
         \<and> selectable (sp_position sp) (sp_max_path_length sp) (closed_tree E sp origin ! origin')"
      "\<not> b' \<longrightarrow> origin' = origin"
    by (rule expand_node_step[OF o po, of E]) blast
  have ct: "closed_tree E sp origin = sp_tree (fst (expand_node E sp origin))"
    by (simp add: expand_node_eq)
  have "tree_ok (sp_tree (fst (expand_node E sp origin)))"
    unfolding e using ch
    by (auto intro!: tree_ok_stepped[OF ok o] simp add: is_child_fields closed_origin_fields)
  moreover have "origin' < length (sp_tree (fst (expand_node E sp origin)))"
  proof (cases b')
    case True
    with sel ct show ?thesis by simp
  next
    case False
    with sel o show ?thesis by (simp add: e)
  qed
  ultimately show ?thesis
    by (simp add: base_inv_def e)
qed

lemma insert_first_node_eq:
  "insert_first_node sp =
     sp\<lparr>sp_tree := [\<lparr>tn_position = sp_position sp, tn_velocity = sp_velocity sp,
                      tn_total_cost = Fin (vnorm (vsub (sp_goal sp) (sp_position sp))),
                      tn_heuristic = Fin (vnorm (vsub (sp_goal sp) (sp_position sp))),
                      tn_last_e = 0, tn_last_z = sp_curr_yaw_histogram_frame_deg sp,
                      tn_origin = 0, tn_depth = 0,
                      tn_yaw = sp_curr_yaw_histogram_frame_deg sp, tn_closed = False\<rparr>],
        sp_closed_set := []\<rparr>"
  by (simp add: insert_first_node_def Let_def mkTreeNode_def setCosts_def
      treeHeuristicFunction_def getPosition_def)

lemma base_inv_init: "base_inv 0 (insert_first_node sp)"
  by (auto simp add: insert_first_node_eq base_inv_def tree_ok_def)

lemma base_inv_loop:
  assumes "base_inv origin sp"
  shows "base_inv (snd (expansion_loop E n b origin sp)) (fst (expansion_loop E n b origin sp))"
proof -
  have "\<exists>n' b'. base_inv (snd (expansion_loop E n b origin sp)) (fst (expansion_loop E n b origin sp))
           \<and> \<not> (n' < sp_n_expanded_nodes (fst (expansion_loop E n b origin sp)) \<and> b')"
    by (rule expansion_loop_rule[where I = "\<lambda>n b. base_inv"]) (simp_all add: assms base_inv_step)
  then show ?thesis by blast
qed

section \<open>The output path\<close>

text \<open>
  \<open>follows T e is\<close>: the list \<open>is\<close> starts at \<open>e\<close>, goes from each node to its parent
  and ends just before node 0.
\<close>

fun follows :: "TreeNode list \<Rightarrow> nat \<Rightarrow> nat list \<Rightarrow> bool" where
  "follows T e [] = (e = 0)"
| "follows T e (i # is) = (0 < e \<and> i = e \<and> follows T (tn_origin (T ! e)) is)"

lemma backtrack_total:
  assumes "tree_ok T" "e < length T"
  shows "\<exists>os. backtrack T e ps0 os0 = Some (ps0 @ map (\<lambda>i. getPosition (T ! i)) os, os0 @ os)
           \<and> follows T e os \<and> (\<forall>i \<in> set os. 0 < i \<and> i < length T)"
  using assms(2)
proof (induction e arbitrary: ps0 os0 rule: less_induct)
  case (less e)
  show ?case
  proof (cases "0 < e")
    case False
    then show ?thesis
      by (subst backtrack.simps) simp
  next
    case True
    with assms(1) less.prems have p: "tn_origin (T ! e) < e"
      by (simp add: tree_ok_def)
    with less.prems have pl: "tn_origin (T ! e) < length T" by simp
    from less.IH[OF p pl, of "ps0 @ [getPosition (T ! e)]" "os0 @ [e]"]
    obtain os where os:
      "backtrack T (tn_origin (T ! e)) (ps0 @ [getPosition (T ! e)]) (os0 @ [e])
         = Some ((ps0 @ [getPosition (T ! e)]) @ map (\<lambda>i. getPosition (T ! i)) os, (os0 @ [e]) @ os)"
      "follows T (tn_origin (T ! e)) os" "\<forall>i \<in> set os. 0 < i \<and> i < length T"
      by blast
    have "backtrack T e ps0 os0 = Some (ps0 @ map (\<lambda>i. getPosition (T ! i)) (e # os), os0 @ (e # os))"
      using True os(1) by (subst backtrack.simps) simp
    moreover have "follows T e (e # os)"
      using True os(2) by simp
    ultimately show ?thesis
      using os(3) True less.prems by (intro exI[of _ "e # os"]) simp
  qed
qed

lemma buildLookAheadTree_eq:
  obtains os where
    "buildLookAheadTree E sp =
       Some ((fst (expansion_loop E 0 True 0 (insert_first_node sp)))
          \<lparr>sp_path_node_positions :=
             map (\<lambda>i. getPosition (sp_tree (fst (expansion_loop E 0 True 0 (insert_first_node sp))) ! i))
               (os @ [0]),
           sp_path_node_origins := os @ [0], sp_tree_age := 0\<rparr>)"
    "follows (sp_tree (fst (expansion_loop E 0 True 0 (insert_first_node sp))))
       (snd (expansion_loop E 0 True 0 (insert_first_node sp))) os"
proof -
  obtain s1 origin where r: "expansion_loop E 0 True 0 (insert_first_node sp) = (s1, origin)"
    by (cases "expansion_loop E 0 True 0 (insert_first_node sp)")
  have b: "base_inv origin s1"
    using base_inv_loop[OF base_inv_init, of E 0 True sp] by (simp only: r fst_conv snd_conv)
  then have ok: "tree_ok (sp_tree s1)" and o: "origin < length (sp_tree s1)"
    by (simp_all add: base_inv_def)
  from backtrack_total[OF ok o, of "[]" "[]"] obtain os where
    os: "backtrack (sp_tree s1) origin [] [] = Some (map (\<lambda>i. getPosition (sp_tree s1 ! i)) os, os)"
      "follows (sp_tree s1) origin os"
    by (elim exE conjE) simp
  have "buildLookAheadTree E sp =
       Some (s1\<lparr>sp_path_node_positions := map (\<lambda>i. getPosition (sp_tree s1 ! i)) (os @ [0]),
           sp_path_node_origins := os @ [0], sp_tree_age := 0\<rparr>)"
    unfolding buildLookAheadTree_def r by (simp add: os(1))
  then show thesis
    using os(2) that[of os] by (simp only: r fst_conv snd_conv)
qed

section \<open>An example run\<close>

text \<open>
  A planner at the origin with the goal at \<open>(10, 0, 0)\<close>, two expansions and two
  children per node. The collaborators propose one step forward and one step back along
  the first axis, and every edge costs 1.
\<close>

definition demo_collaborators :: "(unit, unit, Vector3f, unit, real) collaborators" where
  "demo_collaborators =
     \<lparr>ALPHA_RES = 6,
      cartesianToPolarHistogram = (\<lambda>p q. \<lparr>pp_e = 0, pp_z = 0, pp_r = 0\<rparr>),
      generateNewHistogram = (\<lambda>c p. ()),
      getCostMatrix = (\<lambda>h g p v cp m. p),
      getBestCandidatesFromCostMatrix = (\<lambda>cm k. [1, - 1]),
      toPolar = (\<lambda>a r. \<lparr>pp_e = 0, pp_z = a, pp_r = r\<rparr>),
      polarHistogramToCartesian = (\<lambda>pp p. vadd p (pp_z pp * pp_r pp, 0, 0)),
      polarToHistogramIndex = (\<lambda>pp res. (0, 0)),
      get_dist = (\<lambda>h a b. 0),
      costFunction = (\<lambda>pp d g p v cp. Fin 1),
      wrapAngleToPlusMinus180 = (\<lambda>a. a)\<rparr>"

definition demo_planner :: "(unit, unit) StarPlanner" where
  "demo_planner =
     \<lparr>sp_children_per_node = 2, sp_n_expanded_nodes = 2, sp_tree_node_distance = 1,
      sp_max_path_length = 15, sp_smoothing_margin_degrees = 0, sp_cost_params = (),
      sp_projected_last_wp = (0, 0, 0), sp_position = (0, 0, 0), sp_velocity = (1, 0, 0),
      sp_curr_yaw_histogram_frame_deg = 0, sp_goal = (10, 0, 0), sp_cloud = (),
      sp_tree = [], sp_closed_set = [], sp_path_node_positions = [],
      sp_path_node_origins = [], sp_tree_age = 1000\<rparr>"

definition demo_tree :: "TreeNode list" where
  "demo_tree =
     [\<lparr>tn_position = (0, 0, 0), tn_velocity = (1, 0, 0), tn_total_cost = Fin 10,
       tn_heuristic = Fin 10, tn_last_e = 0, tn_last_z = 0, tn_origin = 0, tn_depth = 0,
       tn_yaw = 0, tn_closed = True\<rparr>,
      \<lparr>tn_position = (1, 0, 0), tn_velocity = (2, 0, 0), tn_total_cost = Fin 10,
       tn_heuristic = Fin 9, tn_last_e = 0, tn_last_z = 1, tn_origin = 0, tn_depth = 1,
       tn_yaw = 90, tn_closed = True\<rparr>,
      \<lparr>tn_position = (- 1, 0, 0), tn_velocity = (0, 0, 0), tn_total_cost = Fin 12,
       tn_heuristic = Fin 11, tn_last_e = 0, tn_last_z = - 1, tn_origin = 0, tn_depth = 1,
       tn_yaw = - 90, tn_closed = False\<rparr>,
      \<lparr>tn_position = (2, 0, 0), tn_velocity = (2, 0, 0), tn_total_cost = Fin 10,
       tn_heuristic = Fin 8, tn_last_e = 0, tn_last_z = 1, tn_origin = 1, tn_depth = 2,
       tn_yaw = 90, tn_closed = False\<rparr>]"

lemma demo_loop:
  "expansion_loop demo_collaborators 0 True 0 (insert_first_node demo_planner) =
     (demo_planner\<lparr>sp_tree := demo_tree, sp_closed_set := [0, 1]\<rparr>, 3)"
  by (simp add: insert_first_node_def demo_planner_def Let_def mkTreeNode_def
      setCosts_def treeHeuristicFunction_def getPosition_def expand_node_def
      demo_collaborators_def getVelocity_def push_node_def HUGE_VAL_def fsub_def atan2_def
      cround_def demo_tree_def expansion_loop.simps fl32_eval)

lemma demo_run:
  "buildLookAheadTree demo_collaborators demo_planner =
     Some (demo_planner
       \<lparr>sp_tree := demo_tree, sp_closed_set := [0, 1],
        sp_path_node_positions := [(2, 0, 0), (1, 0, 0), (0, 0, 0)],
        sp_path_node_origins := [3, 1, 0], sp_tree_age := 0\<rparr>)"
  unfolding buildLookAheadTree_def demo_loop
  by (simp add: backtrack.simps demo_tree_def getPosition_def)


section \<open>The properties of the specification\<close>

lemma tree_ok_reaches_root:
  assumes "tree_ok T" "i < length T"
  shows "\<exists>k\<le>i. ((\<lambda>j. tn_origin (T ! j)) ^^ k) i = 0"
  using assms(2)
proof (induction i rule: less_induct)
  case (less i)
  show ?case
  proof (cases "i = 0")
    case True
    then show ?thesis by (intro exI[of _ 0]) simp
  next
    case False
    with assms(1) less.prems have p: "tn_origin (T ! i) < i"
      by (simp add: tree_ok_def)
    with less.prems have "tn_origin (T ! i) < length T" by simp
    from less.IH[OF p this] obtain k where
      k: "k \<le> tn_origin (T ! i)" "((\<lambda>j. tn_origin (T ! j)) ^^ k) (tn_origin (T ! i)) = 0"
      by blast
    have "((\<lambda>j. tn_origin (T ! j)) ^^ Suc k) i = 0"
      using k(2) by (simp only: funpow_Suc_right o_apply)
    moreover have "Suc k \<le> i" using k(1) p by simp
    ultimately show ?thesis by blast
  qed
qed

lemma buildLookAheadTree_tree_ok:
  "\<exists>sp'. buildLookAheadTree E sp = Some sp' \<and> tree_ok (sp_tree sp')"
proof -
  obtain os where
    "buildLookAheadTree E sp =
       Some ((fst (expansion_loop E 0 True 0 (insert_first_node sp)))
          \<lparr>sp_path_node_positions :=
             map (\<lambda>i. getPosition (sp_tree (fst (expansion_loop E 0 True 0 (insert_first_node sp))) ! i))
               (os @ [0]),
           sp_path_node_origins := os @ [0], sp_tree_age := 0\<rparr>)"
    by (rule buildLookAheadTree_eq)
  moreover have "tree_ok (sp_tree (fst (expansion_loop E 0 True 0 (insert_first_node sp))))"
    using base_inv_loop[OF base_inv_init, of E 0 True sp] by (simp add: base_inv_def)
  ultimately show ?thesis by simp
qed

text \<open>
  Claim C7. The call returns, and in the tree it leaves every node \<open>i > 0\<close> has a
  parent index smaller than \<open>i\<close> and a depth one more than its parent's; following
  the parent links from \<open>i\<close> arrives at node 0 after at most \<open>i\<close> steps.
\<close>

theorem tree_shape:
  "\<exists>sp'. buildLookAheadTree E sp = Some sp' \<and>
     (\<forall>i. 0 < i \<and> i < length (sp_tree sp') \<longrightarrow>
        tn_origin (sp_tree sp' ! i) < i \<and>
        tn_depth (sp_tree sp' ! i) = tn_depth (sp_tree sp' ! tn_origin (sp_tree sp' ! i)) + 1 \<and>
        (\<exists>k\<le>i. ((\<lambda>j. tn_origin (sp_tree sp' ! j)) ^^ k) i = 0))"
proof -
  obtain sp' where b: "buildLookAheadTree E sp = Some sp'" and ok: "tree_ok (sp_tree sp')"
    using buildLookAheadTree_tree_ok by blast
  have "tn_origin (sp_tree sp' ! i) < i \<and>
        tn_depth (sp_tree sp' ! i) = tn_depth (sp_tree sp' ! tn_origin (sp_tree sp' ! i)) + 1 \<and>
        (\<exists>k\<le>i. ((\<lambda>j. tn_origin (sp_tree sp' ! j)) ^^ k) i = 0)"
    if "0 < i \<and> i < length (sp_tree sp')" for i
    using ok that tree_ok_reaches_root[OF ok, of i] by (simp add: tree_ok_def)
  with b show ?thesis by blast
qed

theorem tree_shape_witness:
  "\<exists>sp'. buildLookAheadTree demo_collaborators demo_planner = Some sp' \<and>
     (0::nat) < 3 \<and> 3 < length (sp_tree sp') \<and>
     tn_origin (sp_tree sp' ! 3) < 3 \<and>
     tn_depth (sp_tree sp' ! 3) = tn_depth (sp_tree sp' ! tn_origin (sp_tree sp' ! 3)) + 1 \<and>
     (\<exists>k\<le>3. ((\<lambda>j. tn_origin (sp_tree sp' ! j)) ^^ k) 3 = 0)"
  using tree_shape[of demo_collaborators demo_planner]
  by (simp add: demo_run demo_tree_def)

lemma closed_tree_eq: "closed_tree E sp origin = sp_tree (fst (expand_node E sp origin))"
  by (simp add: expand_node_eq)

definition root_inv :: "('cloud, 'cp) StarPlanner \<Rightarrow> bool" where
  "root_inv sp \<longleftrightarrow>
     getPosition (sp_tree sp ! 0) = sp_position sp \<and>
     getVelocity (sp_tree sp ! 0) = sp_velocity sp \<and>
     tn_heuristic (sp_tree sp ! 0) = Fin (vnorm (vsub (sp_goal sp) (sp_position sp)))"

lemma root_inv_init: "root_inv (insert_first_node sp)"
  by (simp add: root_inv_def insert_first_node_eq getPosition_def getVelocity_def)

lemma root_inv_step:
  assumes "base_inv origin sp" "root_inv sp"
  shows "root_inv (fst (expand_node E sp origin))"
proof -
  from assms have ok: "tree_ok (sp_tree sp)" and o: "origin < length (sp_tree sp)"
    by (simp_all add: base_inv_def)
  from tree_ok_origin_less[OF ok o] have po: "tn_origin (sp_tree sp ! origin) < length (sp_tree sp)" .
  obtain xs origin' b' where
    e: "expand_node E sp origin =
       (sp\<lparr>sp_tree := (sp_tree sp)[origin := closed_origin E sp origin] @ xs,
           sp_closed_set := sp_closed_set sp @ [origin]\<rparr>, origin', b')"
    by (rule expand_node_step[OF o po, of E]) blast
  have f: "fst (expand_node E sp origin) =
       sp\<lparr>sp_tree := (sp_tree sp)[origin := closed_origin E sp origin] @ xs,
           sp_closed_set := sp_closed_set sp @ [origin]\<rparr>"
    using e by simp
  have "0 < length (sp_tree sp)" using o by (cases "sp_tree sp") auto
  then show ?thesis
    unfolding root_inv_def f using assms(2) o
    by (cases "origin = 0") (simp_all add: root_inv_def nth_stepped closed_origin_fields)
qed

lemma base_root_loop:
  assumes "base_inv origin sp \<and> root_inv sp"
  shows "base_inv (snd (expansion_loop E n b origin sp)) (fst (expansion_loop E n b origin sp))
       \<and> root_inv (fst (expansion_loop E n b origin sp))"
proof -
  have "\<exists>n' b'. (base_inv (snd (expansion_loop E n b origin sp)) (fst (expansion_loop E n b origin sp))
            \<and> root_inv (fst (expansion_loop E n b origin sp)))
           \<and> \<not> (n' < sp_n_expanded_nodes (fst (expansion_loop E n b origin sp)) \<and> b')"
    by (rule expansion_loop_rule[where I = "\<lambda>n b origin sp. base_inv origin sp \<and> root_inv sp"])
      (simp_all add: assms base_inv_step root_inv_step)
  then show ?thesis by blast
qed

lemma expansion_loop_frame:
  "\<exists>T C. fst (expansion_loop E n b origin sp) = sp\<lparr>sp_tree := T, sp_closed_set := C\<rparr>"
proof -
  have "\<exists>n' b'. (\<exists>T C. fst (expansion_loop E n b origin sp) = sp\<lparr>sp_tree := T, sp_closed_set := C\<rparr>)
           \<and> \<not> (n' < sp_n_expanded_nodes (fst (expansion_loop E n b origin sp)) \<and> b')"
  proof (rule expansion_loop_rule[where I = "\<lambda>n b origin s. \<exists>T C. s = sp\<lparr>sp_tree := T, sp_closed_set := C\<rparr>"])
    show "\<exists>T C. sp = sp\<lparr>sp_tree := T, sp_closed_set := C\<rparr>"
      by (intro exI[of _ "sp_tree sp"] exI[of _ "sp_closed_set sp"]) simp
  next
    fix n origin and s :: "('a, 'b) StarPlanner"
    assume "\<exists>T C. s = sp\<lparr>sp_tree := T, sp_closed_set := C\<rparr>"
    then obtain T C where s: "s = sp\<lparr>sp_tree := T, sp_closed_set := C\<rparr>" by blast
    show "\<exists>T C. fst (expand_node E s origin) = sp\<lparr>sp_tree := T, sp_closed_set := C\<rparr>"
      by (intro exI[of _ "closed_tree E s origin"] exI[of _ "sp_closed_set s @ [origin]"])
        (simp add: expand_node_eq s)
  qed
  then show ?thesis by blast
qed

text \<open>
  Claim C6. The call returns; node 0 of the tree it leaves has parent index 0 and
  depth 0 and stands at the start position; when the root is created its accumulated
  cost is its heuristic, the distance from the start position to the goal; and the last
  element of the output path is the position of node 0.
\<close>

theorem root_node:
  "\<exists>sp'. buildLookAheadTree E sp = Some sp' \<and>
     tn_origin (sp_tree sp' ! 0) = 0 \<and> tn_depth (sp_tree sp' ! 0) = 0 \<and>
     getPosition (sp_tree sp' ! 0) = sp_position sp \<and>
     tn_heuristic (sp_tree sp' ! 0) = Fin (vnorm (vsub (sp_goal sp) (sp_position sp))) \<and>
     tn_total_cost (sp_tree (insert_first_node sp) ! 0)
       = tn_heuristic (sp_tree (insert_first_node sp) ! 0) \<and>
     tn_heuristic (sp_tree (insert_first_node sp) ! 0)
       = Fin (vnorm (vsub (sp_goal sp) (sp_position sp))) \<and>
     sp_path_node_positions sp' \<noteq> [] \<and>
     last (sp_path_node_positions sp') = getPosition (sp_tree sp' ! 0) \<and>
     last (sp_path_node_origins sp') = 0"
proof -
  obtain s1 origin where r: "expansion_loop E 0 True 0 (insert_first_node sp) = (s1, origin)"
    by (cases "expansion_loop E 0 True 0 (insert_first_node sp)")
  obtain os where
    "buildLookAheadTree E sp =
       Some ((fst (expansion_loop E 0 True 0 (insert_first_node sp)))
          \<lparr>sp_path_node_positions :=
             map (\<lambda>i. getPosition (sp_tree (fst (expansion_loop E 0 True 0 (insert_first_node sp))) ! i))
               (os @ [0]),
           sp_path_node_origins := os @ [0], sp_tree_age := 0\<rparr>)"
    by (rule buildLookAheadTree_eq)
  then have b: "buildLookAheadTree E sp =
       Some (s1\<lparr>sp_path_node_positions := map (\<lambda>i. getPosition (sp_tree s1 ! i)) (os @ [0]),
           sp_path_node_origins := os @ [0], sp_tree_age := 0\<rparr>)"
    by (simp only: r fst_conv)
  have "base_inv (snd (expansion_loop E 0 True 0 (insert_first_node sp)))
          (fst (expansion_loop E 0 True 0 (insert_first_node sp)))
       \<and> root_inv (fst (expansion_loop E 0 True 0 (insert_first_node sp)))"
    by (rule base_root_loop) (simp add: base_inv_init root_inv_init)
  then have inv: "tree_ok (sp_tree s1)" "root_inv s1"
    by (simp_all only: r fst_conv snd_conv base_inv_def)
  obtain T C where "fst (expansion_loop E 0 True 0 (insert_first_node sp))
      = (insert_first_node sp)\<lparr>sp_tree := T, sp_closed_set := C\<rparr>"
    using expansion_loop_frame[of E 0 True 0 "insert_first_node sp"] by (elim exE)
  then have fr: "s1 = (insert_first_node sp)\<lparr>sp_tree := T, sp_closed_set := C\<rparr>"
    by (simp only: r fst_conv)
  have par: "sp_position s1 = sp_position sp" "sp_goal s1 = sp_goal sp"
    by (simp_all only: fr) (simp_all add: insert_first_node_eq)
  have root: "tn_origin (sp_tree s1 ! 0) = 0" "tn_depth (sp_tree s1 ! 0) = 0"
    "getPosition (sp_tree s1 ! 0) = sp_position sp"
    "tn_heuristic (sp_tree s1 ! 0) = Fin (vnorm (vsub (sp_goal sp) (sp_position sp)))"
    using inv par by (simp_all add: tree_ok_def root_inv_def)
  have first: "tn_total_cost (sp_tree (insert_first_node sp) ! 0)
       = tn_heuristic (sp_tree (insert_first_node sp) ! 0)"
    "tn_heuristic (sp_tree (insert_first_node sp) ! 0)
       = Fin (vnorm (vsub (sp_goal sp) (sp_position sp)))"
    by (simp_all add: insert_first_node_eq)
  show ?thesis
    unfolding b using root first by simp
qed

lemma demo_planner_fields:
  "sp_position demo_planner = (0, 0, 0)"
  "sp_velocity demo_planner = (1, 0, 0)"
  "sp_goal demo_planner = (10, 0, 0)"
  "sp_children_per_node demo_planner = 2"
  "sp_n_expanded_nodes demo_planner = 2"
  "sp_max_path_length demo_planner = 15"
  "sp_tree_node_distance demo_planner = 1"
  by (simp_all add: demo_planner_def)

theorem root_node_witness:
  "\<exists>sp'. buildLookAheadTree demo_collaborators demo_planner = Some sp' \<and>
     tn_origin (sp_tree sp' ! 0) = 0 \<and> tn_depth (sp_tree sp' ! 0) = 0 \<and>
     getPosition (sp_tree sp' ! 0) = (0, 0, 0) \<and>
     tn_heuristic (sp_tree sp' ! 0) = Fin 10 \<and>
     tn_total_cost (sp_tree (insert_first_node demo_planner) ! 0) = Fin 10 \<and>
     last (sp_path_node_positions sp') = (0, 0, 0)"
  using root_node[of demo_collaborators demo_planner]
  by (elim exE conjE, intro exI conjI) (simp_all add: demo_planner_fields)

text \<open>
  Claim C2, as amended. The call returns. The indices of the output path start at the
  value of \<^verbatim>\<open>origin\<close> when the expansion loop ends, each one is followed by the parent
  of the node it names, and node 0 comes last; the positions of the output path are the
  positions of these nodes in the same order. So the path runs from the last selected
  origin to the root, and the root's position is its last element.
\<close>

theorem path_follows_parents:
  "\<exists>sp' os. buildLookAheadTree E sp = Some sp' \<and>
     follows (sp_tree sp') (snd (expansion_loop E 0 True 0 (insert_first_node sp))) os \<and>
     sp_path_node_origins sp' = os @ [0] \<and>
     sp_path_node_positions sp' = map (\<lambda>i. getPosition (sp_tree sp' ! i)) (os @ [0])"
proof -
  obtain os where
    "buildLookAheadTree E sp =
       Some ((fst (expansion_loop E 0 True 0 (insert_first_node sp)))
          \<lparr>sp_path_node_positions :=
             map (\<lambda>i. getPosition (sp_tree (fst (expansion_loop E 0 True 0 (insert_first_node sp))) ! i))
               (os @ [0]),
           sp_path_node_origins := os @ [0], sp_tree_age := 0\<rparr>)"
    "follows (sp_tree (fst (expansion_loop E 0 True 0 (insert_first_node sp))))
       (snd (expansion_loop E 0 True 0 (insert_first_node sp))) os"
    by (rule buildLookAheadTree_eq)
  then show ?thesis
    by (intro exI[of _ os] exI[of _ "(fst (expansion_loop E 0 True 0 (insert_first_node sp)))
          \<lparr>sp_path_node_positions :=
             map (\<lambda>i. getPosition (sp_tree (fst (expansion_loop E 0 True 0 (insert_first_node sp))) ! i))
               (os @ [0]),
           sp_path_node_origins := os @ [0], sp_tree_age := 0\<rparr>"]) simp
qed

theorem path_follows_parents_witness:
  "\<exists>sp' os. buildLookAheadTree demo_collaborators demo_planner = Some sp' \<and>
     follows (sp_tree sp') 3 os \<and> os = [3, 1] \<and>
     sp_path_node_origins sp' = os @ [0] \<and>
     sp_path_node_positions sp' = [(2, 0, 0), (1, 0, 0), (0, 0, 0)]"
proof -
  from path_follows_parents[of demo_collaborators demo_planner] obtain sp' os where
    h: "buildLookAheadTree demo_collaborators demo_planner = Some sp'"
      "follows (sp_tree sp') (snd (expansion_loop demo_collaborators 0 True 0
         (insert_first_node demo_planner))) os"
      "sp_path_node_origins sp' = os @ [0]"
    by (elim exE conjE)
  from h(1) have sp': "sp' = demo_planner
       \<lparr>sp_tree := demo_tree, sp_closed_set := [0, 1],
        sp_path_node_positions := [(2, 0, 0), (1, 0, 0), (0, 0, 0)],
        sp_path_node_origins := [3, 1, 0], sp_tree_age := 0\<rparr>"
    by (simp add: demo_run)
  from h(3) have os: "os = [3, 1]"
    by (simp add: sp')
  from h(2) have f: "follows (sp_tree sp') 3 os"
    by (simp add: demo_loop)
  show ?thesis
    using h(1) f os by (intro exI[of _ sp'] exI[of _ os]) (simp add: sp')
qed

text \<open>
  Claim C2 as stated fails: in the example run the last selected origin is node 3 at
  \<open>(2, 0, 0)\<close> and the root stands at \<open>(0, 0, 0)\<close>, and the output path begins with
  the position of node 3 and ends with the position of the root.
\<close>

theorem path_root_first_counterexample:
  "snd (expansion_loop demo_collaborators 0 True 0 (insert_first_node demo_planner)) = 3 \<and>
   sp_path_node_positions (the (buildLookAheadTree demo_collaborators demo_planner))
     = [(2, 0, 0), (1, 0, 0), (0, 0, 0)] \<and>
   getPosition (sp_tree (the (buildLookAheadTree demo_collaborators demo_planner)) ! 0) = (0, 0, 0) \<and>
   getPosition (sp_tree (the (buildLookAheadTree demo_collaborators demo_planner)) ! 3) = (2, 0, 0) \<and>
   hd (sp_path_node_positions (the (buildLookAheadTree demo_collaborators demo_planner)))
     \<noteq> getPosition (sp_tree (the (buildLookAheadTree demo_collaborators demo_planner)) ! 0) \<and>
   last (sp_path_node_positions (the (buildLookAheadTree demo_collaborators demo_planner)))
     \<noteq> getPosition (sp_tree (the (buildLookAheadTree demo_collaborators demo_planner)) ! 3)"
  by (simp add: demo_run demo_loop demo_tree_def getPosition_def)

lemma expansion_loop_stop:
  "\<not> (n < sp_n_expanded_nodes sp \<and> b) \<Longrightarrow> expansion_loop E n b origin sp = (sp, origin)"
  by (subst expansion_loop.simps) auto

lemma expansion_loop_dead_root:
  assumes n: "0 < sp_n_expanded_nodes sp"
    and c: "sp_children_per_node sp \<le> 0 \<or> candidates_at E (insert_first_node sp) 0 = []"
  shows "expansion_loop E 0 True 0 (insert_first_node sp) =
     ((insert_first_node sp)
        \<lparr>sp_tree := [closed_origin E (insert_first_node sp) 0], sp_closed_set := [0]\<rparr>, 0)"
proof -
  let ?s = "insert_first_node sp"
  have len: "length (sp_tree ?s) = 1" and par: "sp_n_expanded_nodes ?s = sp_n_expanded_nodes sp"
    "sp_children_per_node ?s = sp_children_per_node sp" "sp_closed_set ?s = []"
    "tn_origin (sp_tree ?s ! 0) = 0"
    by (simp_all add: insert_first_node_eq)
  have o: "0 < length (sp_tree ?s)" and po: "tn_origin (sp_tree ?s ! 0) < length (sp_tree ?s)"
    by (simp_all add: len par)
  obtain xs origin' b' where
    e: "expand_node E ?s 0 =
       (?s\<lparr>sp_tree := (sp_tree ?s)[0 := closed_origin E ?s 0] @ xs,
           sp_closed_set := sp_closed_set ?s @ [0]\<rparr>, origin', b')"
    and em: "candidates_at E ?s 0 = [] \<longrightarrow> xs = []"
    and cnt: "int (length xs) \<le> max 0 (sp_children_per_node ?s)"
    and sel: "b' \<longrightarrow> origin' < length (closed_tree E ?s 0)
         \<and> selectable (sp_position ?s) (sp_max_path_length ?s) (closed_tree E ?s 0 ! origin')"
      "\<not> b' \<longrightarrow> origin' = 0"
    by (rule expand_node_step[OF o po, of E]) blast
  have xs: "xs = []"
    using c em cnt par by auto
  have T: "(sp_tree ?s)[0 := closed_origin E ?s 0] = [closed_origin E ?s 0]"
    using len by (cases "sp_tree ?s") simp_all
  have e': "expand_node E ?s 0 =
       (?s\<lparr>sp_tree := [closed_origin E ?s 0], sp_closed_set := [0]\<rparr>, origin', b')"
    using e by (simp only: xs T par append_Nil append_Nil2)
  have ct: "closed_tree E ?s 0 = [closed_origin E ?s 0]"
    by (simp add: closed_tree_eq e')
  have nb: "\<not> b'"
    using sel(1) by (auto simp add: ct selectable_def closed_origin_fields)
  with sel(2) have o': "origin' = 0" by simp
  have "expansion_loop E 0 True 0 ?s
      = expansion_loop E 1 False 0 (?s\<lparr>sp_tree := [closed_origin E ?s 0], sp_closed_set := [0]\<rparr>)"
    using n nb o' by (subst expansion_loop.simps) (simp add: par e')
  then show ?thesis
    by (simp add: expansion_loop_stop)
qed

lemma backtrack_root: "backtrack T 0 ps os = Some (ps, os)"
  by (subst backtrack.simps) simp

text \<open>
  Claim C8. If the expansion budget is not positive, or the branching factor is not
  positive, or the candidate extraction at the root yields no candidate, the call
  returns and the output path is the root's position alone. When the budget is positive
  and the extraction at the root yields no candidate, the root's total cost is
  \<^verbatim>\<open>HUGE_VAL\<close> afterwards, the root is closed and the closed set holds just the root.
\<close>

theorem degenerate_path:
  "(sp_n_expanded_nodes sp \<le> 0 \<or> sp_children_per_node sp \<le> 0
      \<or> candidates_at E (insert_first_node sp) 0 = [] \<longrightarrow>
      (\<exists>sp'. buildLookAheadTree E sp = Some sp' \<and>
         sp_path_node_positions sp' = [getPosition (sp_tree sp' ! 0)] \<and>
         getPosition (sp_tree sp' ! 0) = sp_position sp \<and>
         sp_path_node_origins sp' = [0])) \<and>
   (0 < sp_n_expanded_nodes sp \<and> candidates_at E (insert_first_node sp) 0 = [] \<longrightarrow>
      (\<exists>sp'. buildLookAheadTree E sp = Some sp' \<and>
         tn_total_cost (sp_tree sp' ! 0) = HUGE_VAL \<and> HUGE_VAL = PInf \<and>
         tn_closed (sp_tree sp' ! 0) \<and> sp_closed_set sp' = [0]))"
proof (intro conjI impI)
  assume a: "sp_n_expanded_nodes sp \<le> 0 \<or> sp_children_per_node sp \<le> 0
      \<or> candidates_at E (insert_first_node sp) 0 = []"
  show "\<exists>sp'. buildLookAheadTree E sp = Some sp' \<and>
         sp_path_node_positions sp' = [getPosition (sp_tree sp' ! 0)] \<and>
         getPosition (sp_tree sp' ! 0) = sp_position sp \<and>
         sp_path_node_origins sp' = [0]"
  proof (cases "sp_n_expanded_nodes sp \<le> 0")
    case True
    then have "expansion_loop E 0 True 0 (insert_first_node sp) = (insert_first_node sp, 0)"
      by (intro expansion_loop_stop) (simp add: insert_first_node_eq)
    then show ?thesis
      by (simp add: buildLookAheadTree_def backtrack_root)
        (simp add: insert_first_node_eq getPosition_def)
  next
    case False
    with a have "sp_children_per_node sp \<le> 0 \<or> candidates_at E (insert_first_node sp) 0 = []"
      and "0 < sp_n_expanded_nodes sp" by auto
    from expansion_loop_dead_root[OF this(2,1)] show ?thesis
      by (simp add: buildLookAheadTree_def backtrack_root closed_origin_fields)
        (simp add: insert_first_node_eq getPosition_def)
  qed
next
  assume a: "0 < sp_n_expanded_nodes sp \<and> candidates_at E (insert_first_node sp) 0 = []"
  then have "expansion_loop E 0 True 0 (insert_first_node sp) =
     ((insert_first_node sp)
        \<lparr>sp_tree := [closed_origin E (insert_first_node sp) 0], sp_closed_set := [0]\<rparr>, 0)"
    by (intro expansion_loop_dead_root) simp_all
  with a show "\<exists>sp'. buildLookAheadTree E sp = Some sp' \<and>
         tn_total_cost (sp_tree sp' ! 0) = HUGE_VAL \<and> HUGE_VAL = PInf \<and>
         tn_closed (sp_tree sp' ! 0) \<and> sp_closed_set sp' = [0]"
    by (simp add: buildLookAheadTree_def backtrack_root closed_origin_def HUGE_VAL_def)
qed


definition blocked_collaborators :: "(unit, unit, Vector3f, unit, real) collaborators" where
  "blocked_collaborators =
     demo_collaborators\<lparr>getBestCandidatesFromCostMatrix := (\<lambda>cm k. [])\<rparr>"

theorem degenerate_path_witness:
  "0 < sp_n_expanded_nodes demo_planner \<and>
   candidates_at blocked_collaborators (insert_first_node demo_planner) 0 = [] \<and>
   (\<exists>sp'. buildLookAheadTree blocked_collaborators demo_planner = Some sp' \<and>
      sp_path_node_positions sp' = [(0, 0, 0)] \<and>
      tn_total_cost (sp_tree sp' ! 0) = PInf \<and>
      tn_closed (sp_tree sp' ! 0) \<and> sp_closed_set sp' = [0])"
proof -
  have n: "0 < sp_n_expanded_nodes demo_planner"
    by (simp add: demo_planner_fields)
  have c: "candidates_at blocked_collaborators (insert_first_node demo_planner) 0 = []"
    by (simp add: candidates_at_def blocked_collaborators_def)
  from degenerate_path[of demo_planner blocked_collaborators] n c
  obtain sp1 sp2 where
    h1: "buildLookAheadTree blocked_collaborators demo_planner = Some sp1"
      "sp_path_node_positions sp1 = [getPosition (sp_tree sp1 ! 0)]"
      "getPosition (sp_tree sp1 ! 0) = sp_position demo_planner"
    and h2: "buildLookAheadTree blocked_collaborators demo_planner = Some sp2"
      "tn_total_cost (sp_tree sp2 ! 0) = HUGE_VAL" "HUGE_VAL = PInf"
      "tn_closed (sp_tree sp2 ! 0)" "sp_closed_set sp2 = [0]"
    by (elim conjE impE exE) simp_all
  from h1(1) h2(1) have "sp2 = sp1" by simp
  with h1 h2 n c show ?thesis
    by (simp add: demo_planner_fields)
qed





lemma buildLookAheadTree_tree:
  obtains sp' where "buildLookAheadTree E sp = Some sp'"
    "sp_tree sp' = sp_tree (fst (expansion_loop E 0 True 0 (insert_first_node sp)))"
    "sp_closed_set sp' = sp_closed_set (fst (expansion_loop E 0 True 0 (insert_first_node sp)))"
proof -
  obtain os where
    "buildLookAheadTree E sp =
       Some ((fst (expansion_loop E 0 True 0 (insert_first_node sp)))
          \<lparr>sp_path_node_positions :=
             map (\<lambda>i. getPosition (sp_tree (fst (expansion_loop E 0 True 0 (insert_first_node sp))) ! i))
               (os @ [0]),
           sp_path_node_origins := os @ [0], sp_tree_age := 0\<rparr>)"
    by (rule buildLookAheadTree_eq)
  then show thesis
    by (rule that) simp_all
qed

















definition vel_inv :: "TreeNode list \<Rightarrow> bool" where
  "vel_inv T \<longleftrightarrow>
     (\<forall>i. 0 < i \<and> i < length T \<longrightarrow>
        getVelocity (T ! i) =
          vadd (getVelocity (T ! tn_origin (T ! tn_origin (T ! i))))
            (vsub (getPosition (T ! i)) (getPosition (T ! tn_origin (T ! i)))))"

lemma vel_inv_stepped:
  assumes ok: "tree_ok T" and o: "origin < length T" and v: "vel_inv T"
    and u: "tn_origin u = tn_origin (T ! origin)" "getPosition u = getPosition (T ! origin)"
      "getVelocity u = getVelocity (T ! origin)"
    and xs: "\<forall>nd \<in> set xs. tn_origin nd = origin \<and>
        getVelocity nd = vadd (getVelocity (T ! tn_origin (T ! origin)))
                           (vsub (getPosition nd) (getPosition (T ! origin)))"
  shows "vel_inv (T[origin := u] @ xs)"
  unfolding vel_inv_def
proof (intro allI impI)
  let ?T = "T[origin := u] @ xs"
  fix i assume i: "0 < i \<and> i < length ?T"
  have old: "tn_origin (?T ! j) = tn_origin (T ! j) \<and> getPosition (?T ! j) = getPosition (T ! j)
      \<and> getVelocity (?T ! j) = getVelocity (T ! j)"
    if "j < length T" for j
    using that o u by (simp add: nth_stepped)
  show "getVelocity (?T ! i) =
          vadd (getVelocity (?T ! tn_origin (?T ! tn_origin (?T ! i))))
            (vsub (getPosition (?T ! i)) (getPosition (?T ! tn_origin (?T ! i))))"
  proof (cases "i < length T")
    case True
    have p: "tn_origin (T ! i) < length T"
      by (rule tree_ok_origin_less[OF ok True])
    have pp: "tn_origin (T ! tn_origin (T ! i)) < length T"
      by (rule tree_ok_origin_less[OF ok p])
    from v i True have "getVelocity (T ! i) =
          vadd (getVelocity (T ! tn_origin (T ! tn_origin (T ! i))))
            (vsub (getPosition (T ! i)) (getPosition (T ! tn_origin (T ! i))))"
      by (simp add: vel_inv_def)
    with old[OF True] old[OF p] old[OF pp] show ?thesis by simp
  next
    case False
    with i have "i - length T < length xs" by auto
    then have "xs ! (i - length T) \<in> set xs" by (rule nth_mem)
    with xs have n: "tn_origin (xs ! (i - length T)) = origin"
      "getVelocity (xs ! (i - length T)) = vadd (getVelocity (T ! tn_origin (T ! origin)))
                           (vsub (getPosition (xs ! (i - length T))) (getPosition (T ! origin)))"
      by simp_all
    have e: "?T ! i = xs ! (i - length T)"
      using False o by (simp add: nth_stepped)
    have pp: "tn_origin (T ! origin) < length T"
      by (rule tree_ok_origin_less[OF ok o])
    from old[OF o] old[OF pp] n show ?thesis
      by (simp add: e)
  qed
qed

definition base_vel_inv :: "nat \<Rightarrow> ('cloud, 'cp) StarPlanner \<Rightarrow> bool" where
  "base_vel_inv origin sp \<longleftrightarrow> base_inv origin sp \<and> vel_inv (sp_tree sp)"

lemma base_vel_inv_step:
  assumes "base_vel_inv origin sp"
  shows "base_vel_inv (fst (snd (expand_node E sp origin))) (fst (expand_node E sp origin))"
proof -
  from assms have b: "base_inv origin sp" and ok: "tree_ok (sp_tree sp)"
    and o: "origin < length (sp_tree sp)" and v: "vel_inv (sp_tree sp)"
    by (simp_all add: base_vel_inv_def base_inv_def)
  from tree_ok_origin_less[OF ok o] have po: "tn_origin (sp_tree sp ! origin) < length (sp_tree sp)" .
  obtain xs origin' b' where
    e: "expand_node E sp origin =
       (sp\<lparr>sp_tree := (sp_tree sp)[origin := closed_origin E sp origin] @ xs,
           sp_closed_set := sp_closed_set sp @ [origin]\<rparr>, origin', b')"
    and ch: "\<forall>nd \<in> set xs. is_child E sp origin nd"
    by (rule expand_node_step[OF o po, of E]) blast
  have "vel_inv ((sp_tree sp)[origin := closed_origin E sp origin] @ xs)"
    using ch by (intro vel_inv_stepped[OF ok o v]) (auto simp add: closed_origin_fields is_child_fields)
  then have "vel_inv (sp_tree (fst (expand_node E sp origin)))"
    by (simp add: e)
  with base_inv_step[OF b, of E] show ?thesis
    by (simp add: base_vel_inv_def)
qed

lemma base_vel_inv_loop:
  assumes "base_vel_inv origin sp"
  shows "base_vel_inv (snd (expansion_loop E n b origin sp)) (fst (expansion_loop E n b origin sp))"
proof -
  have "\<exists>n' b'. base_vel_inv (snd (expansion_loop E n b origin sp)) (fst (expansion_loop E n b origin sp))
           \<and> \<not> (n' < sp_n_expanded_nodes (fst (expansion_loop E n b origin sp)) \<and> b')"
    by (rule expansion_loop_rule[where I = "\<lambda>n b. base_vel_inv"])
      (simp_all add: assms base_vel_inv_step)
  then show ?thesis by blast
qed

text \<open>
  Claim C10. The call returns, and in the tree it leaves the velocity stored in a node
  \<open>i > 0\<close> is the velocity of the parent of its parent plus the displacement from its
  parent's position to its own; node 0 is its own parent, so for a child of the root
  this is the root's velocity plus the displacement. That this is not the parent's own
  velocity plus the displacement shows in the example run at node 3, a child of node 1.
\<close>

theorem child_velocity:
  "(\<exists>sp'. buildLookAheadTree E sp = Some sp' \<and>
      tn_origin (sp_tree sp' ! 0) = 0 \<and>
      (\<forall>i. 0 < i \<and> i < length (sp_tree sp') \<longrightarrow>
         getVelocity (sp_tree sp' ! i) =
           vadd (getVelocity (sp_tree sp' ! tn_origin (sp_tree sp' ! tn_origin (sp_tree sp' ! i))))
             (vsub (getPosition (sp_tree sp' ! i))
                (getPosition (sp_tree sp' ! tn_origin (sp_tree sp' ! i)))))) \<and>
   getVelocity (sp_tree (the (buildLookAheadTree demo_collaborators demo_planner)) ! 3) \<noteq>
     vadd (getVelocity (sp_tree (the (buildLookAheadTree demo_collaborators demo_planner)) ! 1))
       (vsub (getPosition (sp_tree (the (buildLookAheadTree demo_collaborators demo_planner)) ! 3))
          (getPosition (sp_tree (the (buildLookAheadTree demo_collaborators demo_planner)) ! 1)))"
proof (rule conjI)
  obtain sp' where b: "buildLookAheadTree E sp = Some sp'"
    and t: "sp_tree sp' = sp_tree (fst (expansion_loop E 0 True 0 (insert_first_node sp)))"
    by (rule buildLookAheadTree_tree)
  have "base_vel_inv 0 (insert_first_node sp)"
    using base_inv_init[of sp] by (simp add: base_vel_inv_def vel_inv_def insert_first_node_eq)
  from base_vel_inv_loop[OF this, of E 0 True]
  have "tree_ok (sp_tree sp')" "vel_inv (sp_tree sp')"
    by (simp_all add: t base_vel_inv_def base_inv_def)
  then have "tn_origin (sp_tree sp' ! 0) = 0 \<and>
      (\<forall>i. 0 < i \<and> i < length (sp_tree sp') \<longrightarrow>
         getVelocity (sp_tree sp' ! i) =
           vadd (getVelocity (sp_tree sp' ! tn_origin (sp_tree sp' ! tn_origin (sp_tree sp' ! i))))
             (vsub (getPosition (sp_tree sp' ! i))
                (getPosition (sp_tree sp' ! tn_origin (sp_tree sp' ! i)))))"
    by (simp add: tree_ok_def vel_inv_def)
  with b show "\<exists>sp'. buildLookAheadTree E sp = Some sp' \<and>
      tn_origin (sp_tree sp' ! 0) = 0 \<and>
      (\<forall>i. 0 < i \<and> i < length (sp_tree sp') \<longrightarrow>
         getVelocity (sp_tree sp' ! i) =
           vadd (getVelocity (sp_tree sp' ! tn_origin (sp_tree sp' ! tn_origin (sp_tree sp' ! i))))
             (vsub (getPosition (sp_tree sp' ! i))
                (getPosition (sp_tree sp' ! tn_origin (sp_tree sp' ! i)))))"
    by (intro exI[of _ sp']) (rule conjI)
next
  show "getVelocity (sp_tree (the (buildLookAheadTree demo_collaborators demo_planner)) ! 3) \<noteq>
     vadd (getVelocity (sp_tree (the (buildLookAheadTree demo_collaborators demo_planner)) ! 1))
       (vsub (getPosition (sp_tree (the (buildLookAheadTree demo_collaborators demo_planner)) ! 3))
          (getPosition (sp_tree (the (buildLookAheadTree demo_collaborators demo_planner)) ! 1)))"
    by (simp add: demo_run demo_tree_def getVelocity_def getPosition_def)
qed

theorem child_velocity_witness:
  "\<exists>sp'. buildLookAheadTree demo_collaborators demo_planner = Some sp' \<and>
     (0::nat) < 3 \<and> 3 < length (sp_tree sp') \<and>
     tn_origin (sp_tree sp' ! 3) = 1 \<and> tn_origin (sp_tree sp' ! 1) = 0 \<and>
     getVelocity (sp_tree sp' ! 0) = (1, 0, 0) \<and>
     getVelocity (sp_tree sp' ! 1) = (2, 0, 0) \<and>
     vsub (getPosition (sp_tree sp' ! 3)) (getPosition (sp_tree sp' ! 1)) = (1, 0, 0) \<and>
     getVelocity (sp_tree sp' ! 3) =
       vadd (getVelocity (sp_tree sp' ! tn_origin (sp_tree sp' ! tn_origin (sp_tree sp' ! 3))))
         (vsub (getPosition (sp_tree sp' ! 3))
            (getPosition (sp_tree sp' ! tn_origin (sp_tree sp' ! 3)))) \<and>
     getVelocity (sp_tree sp' ! 3) = (2, 0, 0)"
proof -
  from child_velocity[of demo_collaborators demo_planner]
  obtain sp' where b: "buildLookAheadTree demo_collaborators demo_planner = Some sp'"
    and v: "\<forall>i. 0 < i \<and> i < length (sp_tree sp') \<longrightarrow>
         getVelocity (sp_tree sp' ! i) =
           vadd (getVelocity (sp_tree sp' ! tn_origin (sp_tree sp' ! tn_origin (sp_tree sp' ! i))))
             (vsub (getPosition (sp_tree sp' ! i))
                (getPosition (sp_tree sp' ! tn_origin (sp_tree sp' ! i))))"
    by (elim conjE exE)
  from b have t: "sp_tree sp' = demo_tree"
    by (auto simp add: demo_run)
  have len: "3 < length (sp_tree sp')"
    by (simp add: t demo_tree_def)
  with v have "getVelocity (sp_tree sp' ! 3) =
       vadd (getVelocity (sp_tree sp' ! tn_origin (sp_tree sp' ! tn_origin (sp_tree sp' ! 3))))
         (vsub (getPosition (sp_tree sp' ! 3))
            (getPosition (sp_tree sp' ! tn_origin (sp_tree sp' ! 3))))"
    by simp
  with b len show ?thesis
    by (intro exI[of _ sp'] conjI) (simp_all add: t demo_tree_def getVelocity_def getPosition_def)
qed

text \<open>
  The closed set and the closed flags say the same; every parent is closed; and the
  node selected for the next pass is not.
\<close>

definition closing_inv :: "bool \<Rightarrow> nat \<Rightarrow> ('cloud, 'cp) StarPlanner \<Rightarrow> bool" where
  "closing_inv b origin sp \<longleftrightarrow>
     base_inv origin sp \<and>
     distinct (sp_closed_set sp) \<and>
     (\<forall>i<length (sp_tree sp). tn_closed (sp_tree sp ! i) \<longleftrightarrow> i \<in> set (sp_closed_set sp)) \<and>
     (\<forall>i \<in> set (sp_closed_set sp). i < length (sp_tree sp)) \<and>
     (\<forall>i. 0 < i \<and> i < length (sp_tree sp) \<longrightarrow> tn_closed (sp_tree sp ! tn_origin (sp_tree sp ! i))) \<and>
     (b \<longrightarrow> \<not> tn_closed (sp_tree sp ! origin))"

lemma closing_inv_init: "closing_inv True 0 (insert_first_node sp)"
  using base_inv_init[of sp] by (auto simp add: closing_inv_def insert_first_node_eq)

lemma closing_inv_step:
  assumes "closing_inv True origin sp"
  shows "closing_inv (snd (snd (expand_node E sp origin))) (fst (snd (expand_node E sp origin)))
           (fst (expand_node E sp origin))"
proof -
  let ?T = "sp_tree sp" and ?C = "sp_closed_set sp"
  from assms have b: "base_inv origin sp" and ok: "tree_ok ?T" and o: "origin < length ?T"
    and d: "distinct ?C"
    and cl: "\<forall>i<length ?T. tn_closed (?T ! i) \<longleftrightarrow> i \<in> set ?C"
    and rng: "\<forall>i \<in> set ?C. i < length ?T"
    and par: "\<forall>i. 0 < i \<and> i < length ?T \<longrightarrow> tn_closed (?T ! tn_origin (?T ! i))"
    and opn: "\<not> tn_closed (?T ! origin)"
    by (simp_all add: closing_inv_def base_inv_def)
  from tree_ok_origin_less[OF ok o] have po: "tn_origin (?T ! origin) < length ?T" .
  obtain xs origin' b' where
    e: "expand_node E sp origin =
       (sp\<lparr>sp_tree := ?T[origin := closed_origin E sp origin] @ xs,
           sp_closed_set := ?C @ [origin]\<rparr>, origin', b')"
    and ch: "\<forall>nd \<in> set xs. is_child E sp origin nd"
    and sel: "b' \<longrightarrow> origin' < length (closed_tree E sp origin)
         \<and> selectable (sp_position sp) (sp_max_path_length sp) (closed_tree E sp origin ! origin')"
    by (rule expand_node_step[OF o po, of E]) blast
  let ?T2 = "?T[origin := closed_origin E sp origin] @ xs"
  have ct: "closed_tree E sp origin = ?T2"
    by (simp add: closed_tree_eq e)
  have old: "tn_closed (?T2 ! i) = (i = origin \<or> tn_closed (?T ! i)) \<and> tn_origin (?T2 ! i) = tn_origin (?T ! i)"
    if "i < length ?T" for i
    using that o by (simp add: nth_stepped closed_origin_fields)
  have new: "\<not> tn_closed (?T2 ! i) \<and> tn_origin (?T2 ! i) = origin"
    if "length ?T \<le> i" "i < length ?T2" for i
  proof -
    from that have "i - length ?T < length xs" by auto
    then have "xs ! (i - length ?T) \<in> set xs" by (rule nth_mem)
    with ch have "is_child E sp origin (xs ! (i - length ?T))" by simp
    from is_child_fields(1,3)[OF this] that o show ?thesis
      by (simp add: nth_stepped)
  qed
  have onew: "origin \<notin> set ?C"
    using cl o opn by auto
  have 1: "distinct (?C @ [origin])"
    using d onew by simp
  have 2: "\<forall>i<length ?T2. tn_closed (?T2 ! i) \<longleftrightarrow> i \<in> set (?C @ [origin])"
  proof (intro allI impI)
    fix i assume i: "i < length ?T2"
    show "tn_closed (?T2 ! i) \<longleftrightarrow> i \<in> set (?C @ [origin])"
    proof (cases "i < length ?T")
      case True
      with old[OF True] cl show ?thesis by auto
    next
      case False
      with new[of i] i rng o show ?thesis by auto
    qed
  qed
  have 3: "\<forall>i \<in> set (?C @ [origin]). i < length ?T2"
    using rng o by auto
  have 4: "\<forall>i. 0 < i \<and> i < length ?T2 \<longrightarrow> tn_closed (?T2 ! tn_origin (?T2 ! i))"
  proof (intro allI impI)
    fix i assume i: "0 < i \<and> i < length ?T2"
    show "tn_closed (?T2 ! tn_origin (?T2 ! i))"
    proof (cases "i < length ?T")
      case True
      have p: "tn_origin (?T ! i) < length ?T"
        by (rule tree_ok_origin_less[OF ok True])
      from par i True have "tn_closed (?T ! tn_origin (?T ! i))" by simp
      with old[OF True] old[OF p] show ?thesis by simp
    next
      case False
      with new[of i] i old[OF o] show ?thesis by simp
    qed
  qed
  have 5: "b' \<longrightarrow> \<not> tn_closed (?T2 ! origin')"
    using sel by (simp add: ct selectable_def)
  have "base_inv origin' (sp\<lparr>sp_tree := ?T2, sp_closed_set := ?C @ [origin]\<rparr>)"
    using base_inv_step[OF b, of E] by (simp add: e)
  with 1 2 3 4 5 show ?thesis
    by (simp add: closing_inv_def e)
qed








definition demo_tree1 :: "TreeNode list" where
  "demo_tree1 =
     [\<lparr>tn_position = (0, 0, 0), tn_velocity = (1, 0, 0), tn_total_cost = Fin 10,
       tn_heuristic = Fin 10, tn_last_e = 0, tn_last_z = 0, tn_origin = 0, tn_depth = 0,
       tn_yaw = 0, tn_closed = True\<rparr>,
      \<lparr>tn_position = (1, 0, 0), tn_velocity = (2, 0, 0), tn_total_cost = Fin 10,
       tn_heuristic = Fin 9, tn_last_e = 0, tn_last_z = 1, tn_origin = 0, tn_depth = 1,
       tn_yaw = 90, tn_closed = False\<rparr>,
      \<lparr>tn_position = (- 1, 0, 0), tn_velocity = (0, 0, 0), tn_total_cost = Fin 12,
       tn_heuristic = Fin 11, tn_last_e = 0, tn_last_z = - 1, tn_origin = 0, tn_depth = 1,
       tn_yaw = - 90, tn_closed = False\<rparr>]"

lemma demo_step:
  "expand_node demo_collaborators (insert_first_node demo_planner) 0 =
     (demo_planner\<lparr>sp_tree := demo_tree1, sp_closed_set := [0]\<rparr>, 1, True)"
  by (simp add: insert_first_node_def demo_planner_def Let_def mkTreeNode_def
      setCosts_def treeHeuristicFunction_def getPosition_def expand_node_def
      demo_collaborators_def getVelocity_def push_node_def HUGE_VAL_def fsub_def atan2_def
      cround_def demo_tree1_def fl32_eval)








lemma length_filter_origin:
  "length (filter (\<lambda>nd. tn_origin nd = p) L) = length (filter (\<lambda>k. k = p) (map tn_origin L))"
  by (induction L) simp_all

lemma children_updated:
  assumes "tn_origin u = tn_origin (T ! origin)"
  shows "length (filter (\<lambda>nd. tn_origin nd = p) (tl (T[origin := u])))
       = length (filter (\<lambda>nd. tn_origin nd = p) (tl T))"
proof -
  have "map tn_origin (T[origin := u]) = map tn_origin T"
  proof (cases "origin < length T")
    case True
    with assms show ?thesis
      by (simp add: map_update list_update_same_conv)
  next
    case False
    then have "T[origin := u] = T"
      by (intro list_update_beyond) simp
    then show ?thesis by simp
  qed
  then have "map tn_origin (tl (T[origin := u])) = map tn_origin (tl T)"
    by (simp add: map_tl)
  then show ?thesis
    by (simp add: length_filter_origin)
qed

lemma no_children_of_open:
  assumes par: "\<forall>i. 0 < i \<and> i < length T \<longrightarrow> tn_closed (T ! tn_origin (T ! i))"
    and opn: "\<not> tn_closed (T ! origin)"
  shows "filter (\<lambda>nd. tn_origin nd = origin) (tl T) = []"
proof -
  have "tn_origin nd \<noteq> origin" if "nd \<in> set (tl T)" for nd
  proof -
    from that obtain i where i: "i < length (tl T)" "tl T ! i = nd"
      by (auto simp add: in_set_conv_nth)
    then have "Suc i < length T" and "T ! Suc i = nd"
      by (simp_all add: nth_tl)
    with par have "tn_closed (T ! tn_origin nd)" by auto
    with opn show ?thesis by auto
  qed
  then show ?thesis
    by (simp add: filter_empty_conv)
qed

definition count_inv :: "int \<Rightarrow> bool \<Rightarrow> nat \<Rightarrow> ('cloud, 'cp) StarPlanner \<Rightarrow> bool" where
  "count_inv n b origin sp \<longleftrightarrow>
     closing_inv b origin sp \<and> 0 \<le> n \<and> n \<le> max 0 (sp_n_expanded_nodes sp) \<and>
     int (length (sp_closed_set sp)) = n \<and>
     int (length (sp_tree sp)) \<le> 1 + n * max 0 (sp_children_per_node sp) \<and>
     (\<forall>p. int (length (filter (\<lambda>nd. tn_origin nd = p) (tl (sp_tree sp))))
            \<le> max 0 (sp_children_per_node sp))"

lemma count_inv_init: "count_inv 0 True 0 (insert_first_node sp)"
  using closing_inv_init[of sp] by (simp add: count_inv_def insert_first_node_eq)

lemma count_inv_step:
  assumes "count_inv n True origin sp" "n < sp_n_expanded_nodes sp"
  shows "count_inv (n + 1) (snd (snd (expand_node E sp origin))) (fst (snd (expand_node E sp origin)))
           (fst (expand_node E sp origin))"
proof -
  let ?T = "sp_tree sp" and ?C = "sp_closed_set sp"
  let ?c = "max 0 (sp_children_per_node sp)"
  from assms(1) have ci: "closing_inv True origin sp" and n0: "0 \<le> n"
    and lc: "int (length ?C) = n"
    and lt: "int (length ?T) \<le> 1 + n * ?c"
    and chn: "\<forall>p. int (length (filter (\<lambda>nd. tn_origin nd = p) (tl ?T))) \<le> ?c"
    by (simp_all add: count_inv_def)
  from ci have ok: "tree_ok ?T" and o: "origin < length ?T"
    and par: "\<forall>i. 0 < i \<and> i < length ?T \<longrightarrow> tn_closed (?T ! tn_origin (?T ! i))"
    and opn: "\<not> tn_closed (?T ! origin)"
    by (simp_all add: closing_inv_def base_inv_def)
  from tree_ok_origin_less[OF ok o] have po: "tn_origin (?T ! origin) < length ?T" .
  obtain xs origin' b' where
    e: "expand_node E sp origin =
       (sp\<lparr>sp_tree := ?T[origin := closed_origin E sp origin] @ xs,
           sp_closed_set := ?C @ [origin]\<rparr>, origin', b')"
    and cnt: "int (length xs) \<le> ?c"
    and ch: "\<forall>nd \<in> set xs. is_child E sp origin nd"
    by (rule expand_node_step[OF o po, of E]) blast
  let ?T2 = "?T[origin := closed_origin E sp origin] @ xs"
  have ne: "?T[origin := closed_origin E sp origin] \<noteq> []"
    using o by auto
  have xo: "\<forall>nd \<in> set xs. tn_origin nd = origin"
    using ch is_child_fields(1) by blast
  have 1: "int (length ?T2) \<le> 1 + (n + 1) * ?c"
    using lt cnt by (simp add: algebra_simps)
  have 2: "int (length (filter (\<lambda>nd. tn_origin nd = p) (tl ?T2))) \<le> ?c" for p
  proof -
    have tl: "tl ?T2 = tl (?T[origin := closed_origin E sp origin]) @ xs"
      using ne by simp
    have old: "length (filter (\<lambda>nd. tn_origin nd = p) (tl (?T[origin := closed_origin E sp origin])))
       = length (filter (\<lambda>nd. tn_origin nd = p) (tl ?T))"
      by (rule children_updated) (simp add: closed_origin_fields)
    show ?thesis
    proof (cases "p = origin")
      case True
      have "filter (\<lambda>nd. tn_origin nd = p) xs = xs"
        using xo True by (simp add: filter_id_conv)
      moreover have "filter (\<lambda>nd. tn_origin nd = p) (tl ?T) = []"
        unfolding True by (rule no_children_of_open[OF par opn])
      ultimately show ?thesis
        using cnt by (simp add: tl old del: max.bounded_iff)
    next
      case False
      have "filter (\<lambda>nd. tn_origin nd = p) xs = []"
        using xo False by (auto simp add: filter_empty_conv)
      with chn show ?thesis
        by (simp add: tl old del: max.bounded_iff)
    qed
  qed
  have 3: "n + 1 \<le> max 0 (sp_n_expanded_nodes sp)"
    using assms(2) by simp
  have 4: "closing_inv b' origin' (sp\<lparr>sp_tree := ?T2, sp_closed_set := ?C @ [origin]\<rparr>)"
    using closing_inv_step[OF ci, of E] by (simp add: e)
  show ?thesis
    unfolding e using 1 2 3 4 n0 lc by (simp add: count_inv_def)
qed

lemma count_inv_loop:
  assumes "count_inv n b origin sp"
  shows "\<exists>n' b'. count_inv n' b' (snd (expansion_loop E n b origin sp))
           (fst (expansion_loop E n b origin sp))"
proof -
  have "\<exists>n' b'. count_inv n' b' (snd (expansion_loop E n b origin sp)) (fst (expansion_loop E n b origin sp))
           \<and> \<not> (n' < sp_n_expanded_nodes (fst (expansion_loop E n b origin sp)) \<and> b')"
    by (rule expansion_loop_rule[where I = count_inv]) (simp_all add: assms count_inv_step)
  then show ?thesis by blast
qed


text \<open>
  The bounds with the parameters cut off at zero: they hold for every value of the
  parameters.
\<close>

lemma budget_max:
  "\<exists>sp'. buildLookAheadTree E sp = Some sp' \<and>
     int (length (sp_closed_set sp')) \<le> max 0 (sp_n_expanded_nodes sp) \<and>
     (\<forall>p. int (length (filter (\<lambda>nd. tn_origin nd = p) (tl (sp_tree sp'))))
            \<le> max 0 (sp_children_per_node sp)) \<and>
     int (length (sp_tree sp'))
       \<le> 1 + max 0 (sp_n_expanded_nodes sp) * max 0 (sp_children_per_node sp)"
proof -
  obtain s1 origin where r: "expansion_loop E 0 True 0 (insert_first_node sp) = (s1, origin)"
    by (cases "expansion_loop E 0 True 0 (insert_first_node sp)")
  obtain sp' where b: "buildLookAheadTree E sp = Some sp'"
    and "sp_tree sp' = sp_tree (fst (expansion_loop E 0 True 0 (insert_first_node sp)))"
    and "sp_closed_set sp' = sp_closed_set (fst (expansion_loop E 0 True 0 (insert_first_node sp)))"
    by (rule buildLookAheadTree_tree)
  then have t: "sp_tree sp' = sp_tree s1" and c: "sp_closed_set sp' = sp_closed_set s1"
    by (simp_all only: r fst_conv)
  obtain T C where "fst (expansion_loop E 0 True 0 (insert_first_node sp))
      = (insert_first_node sp)\<lparr>sp_tree := T, sp_closed_set := C\<rparr>"
    using expansion_loop_frame[of E 0 True 0 "insert_first_node sp"] by (elim exE)
  then have fr: "s1 = (insert_first_node sp)\<lparr>sp_tree := T, sp_closed_set := C\<rparr>"
    by (simp only: r fst_conv)
  have par: "sp_n_expanded_nodes s1 = sp_n_expanded_nodes sp"
    "sp_children_per_node s1 = sp_children_per_node sp"
    by (simp_all only: fr) (simp_all add: insert_first_node_eq)
  from count_inv_loop[OF count_inv_init, of E sp] obtain n' b' where
    "count_inv n' b' (snd (expansion_loop E 0 True 0 (insert_first_node sp)))
       (fst (expansion_loop E 0 True 0 (insert_first_node sp)))"
    by (elim exE)
  then have "count_inv n' b' origin s1"
    by (simp only: r fst_conv snd_conv)
  then have n': "0 \<le> n'" "n' \<le> max 0 (sp_n_expanded_nodes sp)"
    and lc: "int (length (sp_closed_set s1)) = n'"
    and lt: "int (length (sp_tree s1)) \<le> 1 + n' * max 0 (sp_children_per_node sp)"
    and ch: "\<forall>p. int (length (filter (\<lambda>nd. tn_origin nd = p) (tl (sp_tree s1))))
            \<le> max 0 (sp_children_per_node sp)"
    by (simp_all add: count_inv_def par)
  have "n' * max 0 (sp_children_per_node sp)
      \<le> max 0 (sp_n_expanded_nodes sp) * max 0 (sp_children_per_node sp)"
    using n'(2) by (intro mult_right_mono) simp_all
  with lt have "int (length (sp_tree s1))
       \<le> 1 + max 0 (sp_n_expanded_nodes sp) * max 0 (sp_children_per_node sp)"
    by simp
  with b n' lc ch show ?thesis
    by (intro exI[of _ sp']) (simp add: t c)
qed

text \<open>
  Claim C5. The call returns. When \<^verbatim>\<open>n_expanded_nodes_\<close> is not negative, the closed
  set has at most \<^verbatim>\<open>n_expanded_nodes_\<close> entries, one for each pass through the loop
  body; when \<^verbatim>\<open>children_per_node_\<close> is not negative, no node is the parent of more
  than \<^verbatim>\<open>children_per_node_\<close> other nodes; and when neither is negative, the tree has
  at most \<open>1 + n_expanded_nodes_ * children_per_node_\<close> nodes. The specification
  requires both parameters to be positive.
\<close>

theorem expansion_budget:
  "\<exists>sp'. buildLookAheadTree E sp = Some sp' \<and>
     (0 \<le> sp_n_expanded_nodes sp \<longrightarrow>
        int (length (sp_closed_set sp')) \<le> sp_n_expanded_nodes sp) \<and>
     (0 \<le> sp_children_per_node sp \<longrightarrow>
        (\<forall>p. int (length (filter (\<lambda>nd. tn_origin nd = p) (tl (sp_tree sp'))))
               \<le> sp_children_per_node sp)) \<and>
     (0 \<le> sp_n_expanded_nodes sp \<and> 0 \<le> sp_children_per_node sp \<longrightarrow>
        int (length (sp_tree sp')) \<le> 1 + sp_n_expanded_nodes sp * sp_children_per_node sp)"
proof -
  from budget_max[of E sp] obtain sp' where
    h: "buildLookAheadTree E sp = Some sp'"
      "int (length (sp_closed_set sp')) \<le> max 0 (sp_n_expanded_nodes sp)"
      "\<forall>p. int (length (filter (\<lambda>nd. tn_origin nd = p) (tl (sp_tree sp'))))
            \<le> max 0 (sp_children_per_node sp)"
      "int (length (sp_tree sp'))
         \<le> 1 + max 0 (sp_n_expanded_nodes sp) * max 0 (sp_children_per_node sp)"
    by (elim exE conjE)
  have 1: "0 \<le> sp_n_expanded_nodes sp \<longrightarrow>
        int (length (sp_closed_set sp')) \<le> sp_n_expanded_nodes sp"
    using h(2) by (auto simp add: max_def split: if_splits)
  have 2: "0 \<le> sp_children_per_node sp \<longrightarrow>
        (\<forall>p. int (length (filter (\<lambda>nd. tn_origin nd = p) (tl (sp_tree sp'))))
               \<le> sp_children_per_node sp)"
    using h(3) by (auto simp add: max_def split: if_splits)
  have 3: "0 \<le> sp_n_expanded_nodes sp \<and> 0 \<le> sp_children_per_node sp \<longrightarrow>
        int (length (sp_tree sp')) \<le> 1 + sp_n_expanded_nodes sp * sp_children_per_node sp"
    using h(4) by (auto simp add: max_def split: if_splits)
  from h(1) 1 2 3 show ?thesis
    by (intro exI[of _ sp'] conjI)
qed

theorem expansion_budget_witness:
  "0 \<le> sp_n_expanded_nodes demo_planner \<and> 0 \<le> sp_children_per_node demo_planner \<and>
   (\<exists>sp'. buildLookAheadTree demo_collaborators demo_planner = Some sp' \<and>
      length (sp_closed_set sp') = 2 \<and>
      int (length (sp_closed_set sp')) \<le> sp_n_expanded_nodes demo_planner \<and>
      length (filter (\<lambda>nd. tn_origin nd = 0) (tl (sp_tree sp'))) = 2 \<and>
      int (length (filter (\<lambda>nd. tn_origin nd = 0) (tl (sp_tree sp'))))
        \<le> sp_children_per_node demo_planner \<and>
      length (sp_tree sp') = 4 \<and>
      int (length (sp_tree sp'))
        \<le> 1 + sp_n_expanded_nodes demo_planner * sp_children_per_node demo_planner)"
proof -
  have n: "0 \<le> sp_n_expanded_nodes demo_planner" and c: "0 \<le> sp_children_per_node demo_planner"
    by (simp_all add: demo_planner_fields)
  from expansion_budget[of demo_collaborators demo_planner] n c obtain sp' where
    h: "buildLookAheadTree demo_collaborators demo_planner = Some sp'"
      "int (length (sp_closed_set sp')) \<le> sp_n_expanded_nodes demo_planner"
      "\<forall>p. int (length (filter (\<lambda>nd. tn_origin nd = p) (tl (sp_tree sp'))))
            \<le> sp_children_per_node demo_planner"
      "int (length (sp_tree sp'))
         \<le> 1 + sp_n_expanded_nodes demo_planner * sp_children_per_node demo_planner"
    by (elim exE conjE impE) simp_all
  from h(1) have sp': "sp_tree sp' = demo_tree" "sp_closed_set sp' = [0, 1]"
    by (auto simp add: demo_run)
  from h(3) have h0: "int (length (filter (\<lambda>nd. tn_origin nd = 0) (tl (sp_tree sp'))))
       \<le> sp_children_per_node demo_planner"
    by (rule spec)
  have l: "length (sp_closed_set sp') = 2"
    "length (filter (\<lambda>nd. tn_origin nd = 0) (tl (sp_tree sp'))) = 2"
    "length (sp_tree sp') = 4"
    by (simp_all add: sp' demo_tree_def)
  show ?thesis
    by (intro conjI exI[of _ sp'] n c h(1) h(2) h(4) h0 l)
qed

text \<open>
  Claim C1. Take a pass through the loop body that starts with \<^verbatim>\<open>origin\<close> and the
  parent of \<^verbatim>\<open>origin\<close> in the tree, as they are in every pass of a call. Every node
  \<open>i\<close> that the pass appends comes from one of the candidates \<open>c\<close> at the origin: it
  stands at the location of \<open>c\<close>, its parent is the origin, its heuristic is the distance
  from its position to the goal, and its total cost is the origin's total cost minus the
  origin's heuristic, plus the value of \<^verbatim>\<open>costFunction\<close> for \<open>c\<close>, plus its own
  heuristic, added in this order.
\<close>

theorem child_cost:
  "origin < length (sp_tree sp) \<and> tn_origin (sp_tree sp ! origin) < length (sp_tree sp) \<and>
   length (sp_tree sp) \<le> i \<and> i < length (sp_tree (fst (expand_node E sp origin))) \<longrightarrow>
   (\<exists>c \<in> set (candidates_at E sp origin).
      getPosition (sp_tree (fst (expand_node E sp origin)) ! i)
        = polarHistogramToCartesian E (toPolar E c (sp_tree_node_distance sp))
            (getPosition (sp_tree sp ! origin)) \<and>
      tn_origin (sp_tree (fst (expand_node E sp origin)) ! i) = origin \<and>
      tn_heuristic (sp_tree (fst (expand_node E sp origin)) ! i)
        = Fin (vnorm (vsub (sp_goal sp) (getPosition (sp_tree (fst (expand_node E sp origin)) ! i)))) \<and>
      tn_total_cost (sp_tree (fst (expand_node E sp origin)) ! i)
        = fadd
            (fadd
               (fsub (tn_total_cost (sp_tree sp ! origin)) (tn_heuristic (sp_tree sp ! origin)))
               (costFunction E (toPolar E c (sp_tree_node_distance sp))
                  (get_dist E (histogram_at E sp origin)
                     (fst (polarToHistogramIndex E (toPolar E c (sp_tree_node_distance sp)) (ALPHA_RES E)))
                     (snd (polarToHistogramIndex E (toPolar E c (sp_tree_node_distance sp)) (ALPHA_RES E))))
                  (sp_goal sp)
                  (getPosition (sp_tree (fst (expand_node E sp origin)) ! i))
                  (getVelocity (sp_tree (fst (expand_node E sp origin)) ! i))
                  (sp_cost_params sp)))
            (tn_heuristic (sp_tree (fst (expand_node E sp origin)) ! i)))"
proof (intro impI)
  assume a: "origin < length (sp_tree sp) \<and> tn_origin (sp_tree sp ! origin) < length (sp_tree sp) \<and>
   length (sp_tree sp) \<le> i \<and> i < length (sp_tree (fst (expand_node E sp origin)))"
  then have o: "origin < length (sp_tree sp)"
    and po: "tn_origin (sp_tree sp ! origin) < length (sp_tree sp)" by simp_all
  obtain xs origin' b' where
    e: "expand_node E sp origin =
       (sp\<lparr>sp_tree := (sp_tree sp)[origin := closed_origin E sp origin] @ xs,
           sp_closed_set := sp_closed_set sp @ [origin]\<rparr>, origin', b')"
    and ch: "\<forall>nd \<in> set xs. is_child E sp origin nd"
    by (rule expand_node_step[OF o po, of E]) blast
  have t: "sp_tree (fst (expand_node E sp origin))
      = (sp_tree sp)[origin := closed_origin E sp origin] @ xs"
    by (simp add: e)
  from a have "i - length (sp_tree sp) < length xs"
    by (auto simp add: t)
  then have "xs ! (i - length (sp_tree sp)) \<in> set xs" by (rule nth_mem)
  moreover have nd: "sp_tree (fst (expand_node E sp origin)) ! i = xs ! (i - length (sp_tree sp))"
    using a by (simp add: t nth_stepped)
  ultimately have "is_child E sp origin (sp_tree (fst (expand_node E sp origin)) ! i)"
    using ch by simp
  then obtain c where c: "c \<in> set (candidates_at E sp origin)"
    and n: "sp_tree (fst (expand_node E sp origin)) ! i
      = child_of E sp (histogram_at E sp origin) origin
               (tn_depth (sp_tree sp ! origin) + 1) (getPosition (sp_tree sp ! origin)) c"
    by (auto simp add: is_child_def)
  show "\<exists>c \<in> set (candidates_at E sp origin).
      getPosition (sp_tree (fst (expand_node E sp origin)) ! i)
        = polarHistogramToCartesian E (toPolar E c (sp_tree_node_distance sp))
            (getPosition (sp_tree sp ! origin)) \<and>
      tn_origin (sp_tree (fst (expand_node E sp origin)) ! i) = origin \<and>
      tn_heuristic (sp_tree (fst (expand_node E sp origin)) ! i)
        = Fin (vnorm (vsub (sp_goal sp) (getPosition (sp_tree (fst (expand_node E sp origin)) ! i)))) \<and>
      tn_total_cost (sp_tree (fst (expand_node E sp origin)) ! i)
        = fadd
            (fadd
               (fsub (tn_total_cost (sp_tree sp ! origin)) (tn_heuristic (sp_tree sp ! origin)))
               (costFunction E (toPolar E c (sp_tree_node_distance sp))
                  (get_dist E (histogram_at E sp origin)
                     (fst (polarToHistogramIndex E (toPolar E c (sp_tree_node_distance sp)) (ALPHA_RES E)))
                     (snd (polarToHistogramIndex E (toPolar E c (sp_tree_node_distance sp)) (ALPHA_RES E))))
                  (sp_goal sp)
                  (getPosition (sp_tree (fst (expand_node E sp origin)) ! i))
                  (getVelocity (sp_tree (fst (expand_node E sp origin)) ! i))
                  (sp_cost_params sp)))
            (tn_heuristic (sp_tree (fst (expand_node E sp origin)) ! i))"
    unfolding n using c
    by (intro bexI[of _ c])
      (simp_all add: child_of_def new_node_fields new_node_cost[OF o] getPosition_def getVelocity_def)
qed

theorem child_cost_witness:
  "0 < length (sp_tree (insert_first_node demo_planner)) \<and>
   tn_origin (sp_tree (insert_first_node demo_planner) ! 0)
     < length (sp_tree (insert_first_node demo_planner)) \<and>
   length (sp_tree (insert_first_node demo_planner)) \<le> 1 \<and>
   1 < length (sp_tree (fst (expand_node demo_collaborators (insert_first_node demo_planner) 0))) \<and>
   tn_total_cost (sp_tree (insert_first_node demo_planner) ! 0) = Fin 10 \<and>
   tn_heuristic (sp_tree (insert_first_node demo_planner) ! 0) = Fin 10 \<and>
   tn_heuristic (sp_tree (fst (expand_node demo_collaborators (insert_first_node demo_planner) 0)) ! 1)
     = Fin 9 \<and>
   tn_total_cost (sp_tree (fst (expand_node demo_collaborators (insert_first_node demo_planner) 0)) ! 1)
     = fadd (fadd (fsub (Fin 10) (Fin 10)) (Fin 1)) (Fin 9) \<and>
   (\<exists>c \<in> set (candidates_at demo_collaborators (insert_first_node demo_planner) 0).
      tn_total_cost (sp_tree (fst (expand_node demo_collaborators (insert_first_node demo_planner) 0)) ! 1)
        = fadd
            (fadd
               (fsub (tn_total_cost (sp_tree (insert_first_node demo_planner) ! 0))
                  (tn_heuristic (sp_tree (insert_first_node demo_planner) ! 0)))
               (costFunction demo_collaborators
                  (toPolar demo_collaborators c (sp_tree_node_distance (insert_first_node demo_planner)))
                  (get_dist demo_collaborators
                     (histogram_at demo_collaborators (insert_first_node demo_planner) 0)
                     (fst (polarToHistogramIndex demo_collaborators
                        (toPolar demo_collaborators c (sp_tree_node_distance (insert_first_node demo_planner)))
                        (ALPHA_RES demo_collaborators)))
                     (snd (polarToHistogramIndex demo_collaborators
                        (toPolar demo_collaborators c (sp_tree_node_distance (insert_first_node demo_planner)))
                        (ALPHA_RES demo_collaborators))))
                  (sp_goal (insert_first_node demo_planner))
                  (getPosition (sp_tree (fst (expand_node demo_collaborators (insert_first_node demo_planner) 0)) ! 1))
                  (getVelocity (sp_tree (fst (expand_node demo_collaborators (insert_first_node demo_planner) 0)) ! 1))
                  (sp_cost_params (insert_first_node demo_planner))))
            (tn_heuristic (sp_tree (fst (expand_node demo_collaborators (insert_first_node demo_planner) 0)) ! 1)))"
proof -
  have h: "0 < length (sp_tree (insert_first_node demo_planner)) \<and>
      tn_origin (sp_tree (insert_first_node demo_planner) ! 0)
        < length (sp_tree (insert_first_node demo_planner)) \<and>
      length (sp_tree (insert_first_node demo_planner)) \<le> 1 \<and>
      1 < length (sp_tree (fst (expand_node demo_collaborators (insert_first_node demo_planner) 0)))"
    by (simp add: demo_step demo_tree1_def) (simp add: insert_first_node_eq)
  have v: "tn_total_cost (sp_tree (insert_first_node demo_planner) ! 0) = Fin 10"
    "tn_heuristic (sp_tree (insert_first_node demo_planner) ! 0) = Fin 10"
    by (simp_all add: insert_first_node_eq demo_planner_fields)
  have w: "tn_heuristic (sp_tree (fst (expand_node demo_collaborators (insert_first_node demo_planner) 0)) ! 1)
     = Fin 9"
    "tn_total_cost (sp_tree (fst (expand_node demo_collaborators (insert_first_node demo_planner) 0)) ! 1)
     = fadd (fadd (fsub (Fin 10) (Fin 10)) (Fin 1)) (Fin 9)"
    by (simp_all add: demo_step demo_tree1_def fsub_def)
  from child_cost[of 0 "insert_first_node demo_planner" 1 demo_collaborators] h
  obtain c where "c \<in> set (candidates_at demo_collaborators (insert_first_node demo_planner) 0)"
    and "tn_total_cost (sp_tree (fst (expand_node demo_collaborators (insert_first_node demo_planner) 0)) ! 1)
        = fadd
            (fadd
               (fsub (tn_total_cost (sp_tree (insert_first_node demo_planner) ! 0))
                  (tn_heuristic (sp_tree (insert_first_node demo_planner) ! 0)))
               (costFunction demo_collaborators
                  (toPolar demo_collaborators c (sp_tree_node_distance (insert_first_node demo_planner)))
                  (get_dist demo_collaborators
                     (histogram_at demo_collaborators (insert_first_node demo_planner) 0)
                     (fst (polarToHistogramIndex demo_collaborators
                        (toPolar demo_collaborators c (sp_tree_node_distance (insert_first_node demo_planner)))
                        (ALPHA_RES demo_collaborators)))
                     (snd (polarToHistogramIndex demo_collaborators
                        (toPolar demo_collaborators c (sp_tree_node_distance (insert_first_node demo_planner)))
                        (ALPHA_RES demo_collaborators))))
                  (sp_goal (insert_first_node demo_planner))
                  (getPosition (sp_tree (fst (expand_node demo_collaborators (insert_first_node demo_planner) 0)) ! 1))
                  (getVelocity (sp_tree (fst (expand_node demo_collaborators (insert_first_node demo_planner) 0)) ! 1))
                  (sp_cost_params (insert_first_node demo_planner))))
            (tn_heuristic (sp_tree (fst (expand_node demo_collaborators (insert_first_node demo_planner) 0)) ! 1))"
    by (elim impE bexE conjE) (rule h)
  then show ?thesis
    using h v w by (intro conjI bexI[of _ c]) simp_all
qed

text \<open>A planner with other leftovers of earlier calls: last direction, path and age.\<close>

definition stale ::
  "Vector3f \<Rightarrow> Vector3f list \<Rightarrow> nat list \<Rightarrow> int \<Rightarrow> ('cloud, 'cp) StarPlanner \<Rightarrow>
   ('cloud, 'cp) StarPlanner" where
  "stale w pp po a s =
     s\<lparr>sp_projected_last_wp := w, sp_path_node_positions := pp, sp_path_node_origins := po,
       sp_tree_age := a\<rparr>"

lemma stale_fields:
  "sp_tree (stale w pp po a s) = sp_tree s"
  "sp_closed_set (stale w pp po a s) = sp_closed_set s"
  "sp_children_per_node (stale w pp po a s) = sp_children_per_node s"
  "sp_n_expanded_nodes (stale w pp po a s) = sp_n_expanded_nodes s"
  "sp_tree_node_distance (stale w pp po a s) = sp_tree_node_distance s"
  "sp_position (stale w pp po a s) = sp_position s"
  "sp_max_path_length (stale w pp po a s) = sp_max_path_length s"
  "(stale w pp po a s)\<lparr>sp_tree := T\<rparr> = stale w pp po a (s\<lparr>sp_tree := T\<rparr>)"
  by (simp_all add: stale_def)

lemma child_of_stale:
  "child_of E (stale w pp po a s) h origin d p c = child_of E s h origin d p c"
  by (simp add: child_of_def new_node_def stale_def)

lemma insert_nodes_stale:
  "insert_nodes E h origin d p cs k (stale w pp po a s)
     = stale w pp po a (insert_nodes E h origin d p cs k s)"
proof (induction cs arbitrary: k s)
  case Nil
  show ?case by simp
next
  case (Cons c cs)
  show ?case
    by (simp add: insert_nodes_Cons child_of_stale stale_fields Cons.IH del: insert_nodes.simps)
qed

lemma closed_tree_stale:
  "closed_tree E (stale w pp po a s) origin = closed_tree E s origin"
proof -
  have f: "histogram_at E (stale w pp po a s) origin = histogram_at E s origin"
    "candidates_at E (stale w pp po a s) origin = candidates_at E s origin"
    by (simp_all add: stale_def histogram_at_def candidates_at_def)
  have "grown_tree E (stale w pp po a s) origin = grown_tree E s origin"
    by (simp add: grown_tree_def f insert_nodes_stale stale_fields)
  then show ?thesis
    by (simp add: closed_tree_def)
qed

lemma expand_node_stale:
  "expand_node E (stale w pp po a s) origin
     = (stale w pp po a (fst (expand_node E s origin)), snd (expand_node E s origin))"
  unfolding expand_node_eq closed_tree_stale by (simp add: stale_def)

lemma expansion_loop_stale:
  "expansion_loop E n b origin (stale w pp po a s)
     = (stale w pp po a (fst (expansion_loop E n b origin s)), snd (expansion_loop E n b origin s))"
proof (induction E n b origin s rule: expansion_loop.induct)
  case (1 E n b origin s)
  have f: "sp_n_expanded_nodes (stale w pp po a s) = sp_n_expanded_nodes s"
    by (simp add: stale_def)
  show ?case
  proof (cases "n < sp_n_expanded_nodes s \<and> b")
    case True
    obtain s' origin' b' where e: "expand_node E s origin = (s', origin', b')"
      by (cases "expand_node E s origin") auto
    have l: "expansion_loop E n b origin s = expansion_loop E (n + 1) b' origin' s'"
      using True e by (subst expansion_loop.simps) simp
    have "expansion_loop E n b origin (stale w pp po a s)
        = expansion_loop E (n + 1) b' origin' (stale w pp po a s')"
      using True e by (subst expansion_loop.simps) (simp add: f expand_node_stale)
    also have "\<dots> = (stale w pp po a (fst (expansion_loop E (n + 1) b' origin' s')),
        snd (expansion_loop E (n + 1) b' origin' s'))"
      by (rule "1.IH"[OF True e[symmetric] refl])
    finally show ?thesis
      by (simp only: l)
  next
    case False
    then show ?thesis
      by (simp add: expansion_loop_stop f)
  qed
qed

lemma buildLookAheadTree_stale:
  assumes "insert_first_node sp2 = stale w pp po a (insert_first_node sp1)"
    and "buildLookAheadTree E sp1 = Some s1"
  shows "buildLookAheadTree E sp2 = Some (s1\<lparr>sp_projected_last_wp := w\<rparr>)"
proof -
  obtain r origin where r: "expansion_loop E 0 True 0 (insert_first_node sp1) = (r, origin)"
    by (cases "expansion_loop E 0 True 0 (insert_first_node sp1)")
  have r2: "expansion_loop E 0 True 0 (insert_first_node sp2) = (stale w pp po a r, origin)"
    by (simp add: assms(1) expansion_loop_stale r)
  have t: "sp_tree (stale w pp po a r) = sp_tree r"
    by (simp add: stale_def)
  from assms(2) show ?thesis
    unfolding buildLookAheadTree_def r r2 t
    by (auto simp add: stale_def split: option.splits)
qed


text \<open>
  Claim C9. The model is a function of the collaborators and the planner, so equal
  arguments give equal results. More than that: two planners that agree on the
  parameters, the pose, the goal and the cloud, and may differ in what an earlier call
  left behind (tree, closed set, path, age, last direction), get the same tree, closed
  set and path from a call with the same collaborators.
\<close>

theorem deterministic:
  "sp_children_per_node sp2 = sp_children_per_node sp1 \<and>
   sp_n_expanded_nodes sp2 = sp_n_expanded_nodes sp1 \<and>
   sp_tree_node_distance sp2 = sp_tree_node_distance sp1 \<and>
   sp_max_path_length sp2 = sp_max_path_length sp1 \<and>
   sp_smoothing_margin_degrees sp2 = sp_smoothing_margin_degrees sp1 \<and>
   sp_cost_params sp2 = sp_cost_params sp1 \<and>
   sp_position sp2 = sp_position sp1 \<and>
   sp_velocity sp2 = sp_velocity sp1 \<and>
   sp_curr_yaw_histogram_frame_deg sp2 = sp_curr_yaw_histogram_frame_deg sp1 \<and>
   sp_goal sp2 = sp_goal sp1 \<and>
   sp_cloud sp2 = sp_cloud sp1 \<longrightarrow>
   (\<exists>s1 s2. buildLookAheadTree E sp1 = Some s1 \<and> buildLookAheadTree E sp2 = Some s2 \<and>
      sp_tree s1 = sp_tree s2 \<and> sp_closed_set s1 = sp_closed_set s2 \<and>
      sp_path_node_positions s1 = sp_path_node_positions s2 \<and>
      sp_path_node_origins s1 = sp_path_node_origins s2 \<and>
      sp_tree_age s1 = sp_tree_age s2)"
proof (intro impI)
  assume a: "sp_children_per_node sp2 = sp_children_per_node sp1 \<and>
   sp_n_expanded_nodes sp2 = sp_n_expanded_nodes sp1 \<and>
   sp_tree_node_distance sp2 = sp_tree_node_distance sp1 \<and>
   sp_max_path_length sp2 = sp_max_path_length sp1 \<and>
   sp_smoothing_margin_degrees sp2 = sp_smoothing_margin_degrees sp1 \<and>
   sp_cost_params sp2 = sp_cost_params sp1 \<and>
   sp_position sp2 = sp_position sp1 \<and>
   sp_velocity sp2 = sp_velocity sp1 \<and>
   sp_curr_yaw_histogram_frame_deg sp2 = sp_curr_yaw_histogram_frame_deg sp1 \<and>
   sp_goal sp2 = sp_goal sp1 \<and>
   sp_cloud sp2 = sp_cloud sp1"
  have i: "insert_first_node sp2
      = stale (sp_projected_last_wp sp2) (sp_path_node_positions sp2) (sp_path_node_origins sp2)
          (sp_tree_age sp2) (insert_first_node sp1)"
    unfolding insert_first_node_eq stale_def using a
    by (intro StarPlanner.equality) simp_all
  obtain s1 where b1: "buildLookAheadTree E sp1 = Some s1"
    by (rule buildLookAheadTree_tree)
  from buildLookAheadTree_stale[OF i b1]
  have b2: "buildLookAheadTree E sp2 = Some (s1\<lparr>sp_projected_last_wp := sp_projected_last_wp sp2\<rparr>)" .
  show "\<exists>s1 s2. buildLookAheadTree E sp1 = Some s1 \<and> buildLookAheadTree E sp2 = Some s2 \<and>
      sp_tree s1 = sp_tree s2 \<and> sp_closed_set s1 = sp_closed_set s2 \<and>
      sp_path_node_positions s1 = sp_path_node_positions s2 \<and>
      sp_path_node_origins s1 = sp_path_node_origins s2 \<and>
      sp_tree_age s1 = sp_tree_age s2"
    using b1 b2
    by (intro exI[of _ s1] exI[of _ "s1\<lparr>sp_projected_last_wp := sp_projected_last_wp sp2\<rparr>"]) simp
qed

definition demo_planner_after :: "(unit, unit) StarPlanner" where
  "demo_planner_after =
     demo_planner
       \<lparr>sp_tree := demo_tree, sp_closed_set := [0, 1],
        sp_path_node_positions := [(2, 0, 0), (1, 0, 0), (0, 0, 0)],
        sp_path_node_origins := [3, 1, 0], sp_tree_age := 0\<rparr>"

theorem deterministic_witness:
  "buildLookAheadTree demo_collaborators demo_planner = Some demo_planner_after \<and>
   sp_tree demo_planner_after \<noteq> sp_tree demo_planner \<and>
   sp_children_per_node demo_planner_after = sp_children_per_node demo_planner \<and>
   sp_n_expanded_nodes demo_planner_after = sp_n_expanded_nodes demo_planner \<and>
   sp_position demo_planner_after = sp_position demo_planner \<and>
   sp_goal demo_planner_after = sp_goal demo_planner \<and>
   (\<exists>s1 s2. buildLookAheadTree demo_collaborators demo_planner = Some s1 \<and>
      buildLookAheadTree demo_collaborators demo_planner_after = Some s2 \<and>
      sp_tree s1 = sp_tree s2 \<and> sp_closed_set s1 = sp_closed_set s2 \<and>
      sp_path_node_positions s1 = sp_path_node_positions s2 \<and>
      sp_path_node_origins s1 = sp_path_node_origins s2)"
proof -
  have r: "buildLookAheadTree demo_collaborators demo_planner = Some demo_planner_after"
    by (simp add: demo_run demo_planner_after_def)
  have d: "sp_tree demo_planner_after \<noteq> sp_tree demo_planner"
    by (simp add: demo_planner_after_def demo_planner_def demo_tree_def)
  have h: "sp_children_per_node demo_planner_after = sp_children_per_node demo_planner \<and>
   sp_n_expanded_nodes demo_planner_after = sp_n_expanded_nodes demo_planner \<and>
   sp_tree_node_distance demo_planner_after = sp_tree_node_distance demo_planner \<and>
   sp_max_path_length demo_planner_after = sp_max_path_length demo_planner \<and>
   sp_smoothing_margin_degrees demo_planner_after = sp_smoothing_margin_degrees demo_planner \<and>
   sp_cost_params demo_planner_after = sp_cost_params demo_planner \<and>
   sp_position demo_planner_after = sp_position demo_planner \<and>
   sp_velocity demo_planner_after = sp_velocity demo_planner \<and>
   sp_curr_yaw_histogram_frame_deg demo_planner_after = sp_curr_yaw_histogram_frame_deg demo_planner \<and>
   sp_goal demo_planner_after = sp_goal demo_planner \<and>
   sp_cloud demo_planner_after = sp_cloud demo_planner"
    by (simp add: demo_planner_after_def)
  from deterministic[of demo_planner_after demo_planner demo_collaborators] h
  obtain s1 s2 where "buildLookAheadTree demo_collaborators demo_planner = Some s1"
    "buildLookAheadTree demo_collaborators demo_planner_after = Some s2"
    "sp_tree s1 = sp_tree s2" "sp_closed_set s1 = sp_closed_set s2"
    "sp_path_node_positions s1 = sp_path_node_positions s2"
    "sp_path_node_origins s1 = sp_path_node_origins s2"
    by (elim impE exE conjE) (rule h)
  with r d h show ?thesis
    by (intro conjI exI[of _ s1] exI[of _ s2]) simp_all
qed

end
